theory Spec2Isabelle
  imports Complex_Main "HOL-Library.AList" "HOL-Library.Sublist" "HOL-Library.Log_Nat"
begin

section \<open>Grid (src/core/Grid.js)\<close>

text \<open>
  A colour is a string or \<open>null\<close>; \<open>None\<close> stands for \<open>null\<close>. Coordinates and dimensions
  are JavaScript numbers, taken here as integers. The sparse store is a JavaScript \<open>Map\<close>
  keyed by the string \<open>x,y\<close>; it is modelled as an association list in insertion order
  keyed by the pair \<open>(x, y)\<close> (the string is an injective encoding of the pair):
  \<open>Map.set\<close> is \<open>AList.update\<close> (replace in place, or append), \<open>Map.delete\<close> is
  \<open>AList.delete\<close>, \<open>Map.get\<close> is \<open>map_of\<close> and \<open>Map.size = 0\<close> is emptiness of the list.
\<close>

type_synonym color = "string option"

type_synonym cell_store = "((int \<times> int) \<times> string) list"

record hist_entry =
  hx :: int
  hy :: int
  oldColor :: color
  newColor :: color

text \<open>The payload of \<open>cellChanged\<close> carries \<open>oldColor\<close> when it comes from \<open>setCell\<close> and
  no such field when it comes from \<open>undo\<close>.\<close>

datatype grid_event =
    CellChanged int int color "color option"
  | CellsChanged "(int \<times> int \<times> color \<times> color) list"
  | GridCleared
  | GridResized int int
  | GridLoaded

record grid =
  width :: int
  height :: int
  cells :: cell_store
  history :: "hist_entry list"

text \<open>\<open>maxHistory\<close> is assigned once, in the constructor, and never again.\<close>

definition maxHistory :: nat where
  "maxHistory = 50"

definition Grid :: "int \<Rightarrow> int \<Rightarrow> grid" where
  "Grid w h = \<lparr>width = w, height = h, cells = [], history = []\<rparr>"

definition key :: "int \<Rightarrow> int \<Rightarrow> int \<times> int" where
  "key x y = (x, y)"

text \<open>\<open>v || null\<close> on the result of \<open>Map.get\<close>: a missing key and the empty string are
  both falsy.\<close>

definition or_null :: "string option \<Rightarrow> color" where
  "or_null v = (case v of None \<Rightarrow> None | Some c \<Rightarrow> if c = [] then None else Some c)"

text \<open>Every method that emits does so as its last statement before returning, so a method
  is modelled as returning the events it emitted, in order, next to its result; the
  listeners are run on them by the caller (see \<open>grid_listener\<close> below).\<close>

definition expand :: "int \<Rightarrow> int \<Rightarrow> grid \<Rightarrow> bool \<times> grid \<times> grid_event list" where
  "expand newWidth newHeight g =
     (if newWidth < width g \<or> newHeight < height g then (False, g, [])
      else (True, g\<lparr>width := newWidth, height := newHeight, history := []\<rparr>,
            [GridResized newWidth newHeight]))"

definition isValid :: "grid \<Rightarrow> int \<Rightarrow> int \<Rightarrow> bool" where
  "isValid g x y = (x \<ge> 0 \<and> x < width g \<and> y \<ge> 0 \<and> y < height g)"

definition getCell :: "grid \<Rightarrow> int \<Rightarrow> int \<Rightarrow> color" where
  "getCell g x y =
     (if \<not> isValid g x y then None else or_null (map_of (cells g) (key x y)))"

definition store :: "(int \<times> int) \<Rightarrow> color \<Rightarrow> cell_store \<Rightarrow> cell_store" where
  "store k color cs =
     (case color of None \<Rightarrow> AList.delete k cs | Some c \<Rightarrow> AList.update k c cs)"

definition push_history :: "hist_entry \<Rightarrow> hist_entry list \<Rightarrow> hist_entry list" where
  "push_history e h =
     (let h' = h @ [e] in if length h' > maxHistory then tl h' else h')"

definition setCell ::
  "int \<Rightarrow> int \<Rightarrow> color \<Rightarrow> bool \<Rightarrow> grid \<Rightarrow> bool \<times> grid \<times> grid_event list" where
  "setCell x y color recordHistory g =
     (if \<not> isValid g x y then (False, g, [])
      else
        let k = key x y;
            old = or_null (map_of (cells g) k)
        in if old = color then (False, g, [])
           else
             let h' = (if recordHistory
                       then push_history \<lparr>hx = x, hy = y, oldColor = old, newColor = color\<rparr>
                              (history g)
                       else history g)
             in (True, g\<lparr>cells := store k color (cells g), history := h'\<rparr>,
                 [CellChanged x y color (Some old)]))"

text \<open>The loop of \<open>setCells\<close>: the accumulator is the grid and \<open>actualChanges\<close>.\<close>

fun setCells_loop ::
  "(int \<times> int \<times> color) list \<Rightarrow> bool \<Rightarrow> grid \<Rightarrow> (int \<times> int \<times> color \<times> color) list
     \<Rightarrow> grid \<times> (int \<times> int \<times> color \<times> color) list" where
  "setCells_loop [] recordHistory g acc = (g, acc)"
| "setCells_loop ((x, y, color) # rest) recordHistory g acc =
     (if \<not> isValid g x y then setCells_loop rest recordHistory g acc
      else
        let k = key x y;
            old = or_null (map_of (cells g) k)
        in if old = color then setCells_loop rest recordHistory g acc
           else
             let h' = (if recordHistory
                       then history g @ [\<lparr>hx = x, hy = y, oldColor = old, newColor = color\<rparr>]
                       else history g)
             in setCells_loop rest recordHistory
                  (g\<lparr>cells := store k color (cells g), history := h'\<rparr>)
                  (acc @ [(x, y, color, old)]))"

definition setCells ::
  "(int \<times> int \<times> color) list \<Rightarrow> bool \<Rightarrow> grid \<Rightarrow> nat \<times> grid \<times> grid_event list" where
  "setCells changes recordHistory g =
     (let (g1, actualChanges) = setCells_loop changes recordHistory g [];
          h = history g1;
          g2 = (if length h > maxHistory then g1\<lparr>history := drop (length h - maxHistory) h\<rparr>
                else g1)
      in (length actualChanges, g2,
          if length actualChanges > 0 then [CellsChanged actualChanges] else []))"

definition undo :: "grid \<Rightarrow> bool \<times> grid \<times> grid_event list" where
  "undo g =
     (if length (history g) = 0 then (False, g, [])
      else
        let e = last (history g);
            k = key (hx e) (hy e)
        in (True, g\<lparr>cells := store k (oldColor e) (cells g), history := butlast (history g)\<rparr>,
            [CellChanged (hx e) (hy e) (oldColor e) None]))"

definition clear :: "grid \<Rightarrow> grid \<times> grid_event list" where
  "clear g =
     (if length (cells g) = 0 then (g, [])
      else (g\<lparr>cells := [], history := []\<rparr>, [GridCleared]))"

subsection \<open>Grid.deserialize\<close>

text \<open>
  The saved grid document: \<open>width\<close> and \<open>height\<close> may be missing; \<open>cells\<close> is not an array,
  or an array whose first element is an array (the sparse format, triples \<open>[x, y, color]\<close>),
  or any other array (the flat format, one colour or \<open>null\<close> per index; the empty array
  takes this branch too).
\<close>

datatype cells_data =
    NotArray
  | SparseCells "(int \<times> int \<times> color) list"
  | FlatCells "color list"

record save_grid =
  sg_width :: "int option"
  sg_height :: "int option"
  sg_cells :: cells_data

text \<open>\<open>n || d\<close> on a number that may be missing: \<open>undefined\<close> and \<open>0\<close> are falsy.\<close>

definition num_or :: "int option \<Rightarrow> int \<Rightarrow> int" where
  "num_or v d = (case v of None \<Rightarrow> d | Some n \<Rightarrow> if n = 0 then d else n)"

text \<open>The remainder operator \<open>%\<close> of JavaScript on integers takes the sign of the dividend.\<close>

definition js_rem :: "int \<Rightarrow> int \<Rightarrow> int" where
  "js_rem a b = (if a \<ge> 0 then a mod \<bar>b\<bar> else - ((- a) mod \<bar>b\<bar>))"

fun load_sparse :: "(int \<times> int \<times> color) list \<Rightarrow> cell_store \<Rightarrow> cell_store" where
  "load_sparse [] cs = cs"
| "load_sparse ((x, y, color) # rest) cs =
     load_sparse rest (case color of None \<Rightarrow> cs | Some c \<Rightarrow> AList.update (key x y) c cs)"

fun load_flat :: "int \<Rightarrow> color list \<Rightarrow> int \<Rightarrow> cell_store \<Rightarrow> cell_store" where
  "load_flat w [] i cs = cs"
| "load_flat w (v # rest) i cs =
     load_flat w rest (i + 1)
       (case v of None \<Rightarrow> cs
        | Some c \<Rightarrow> AList.update (key (js_rem i w) (i div w)) c cs)"

definition Grid_deserialize :: "save_grid \<Rightarrow> grid \<Rightarrow> grid \<times> grid_event list" where
  "Grid_deserialize d g =
     (let w = num_or (sg_width d) 4;
          h = num_or (sg_height d) 4;
          cs = (case sg_cells d of
                  NotArray \<Rightarrow> []
                | SparseCells ts \<Rightarrow> load_sparse ts []
                | FlatCells vs \<Rightarrow> load_flat w vs 0 [])
      in (g\<lparr>width := w, height := h, cells := cs, history := []\<rparr>, [GridLoaded]))"

section \<open>GameState (src/core/GameState.js)\<close>

type_synonym pattern = "color list list"

text \<open>A contract as \<open>generateContract\<close> builds it; \<open>cid\<close> is the number in the identifier
  \<open>contract_n\<close>.\<close>

record contract =
  cid :: nat
  rankLevel :: int
  rankName :: string
  pattern :: pattern
  reward :: int
  cellCount :: int
  createdAt :: int

record stats =
  totalCellsFilled :: int
  totalMoneyEarned :: int
  totalContractsCompleted :: int
  playTime :: int

text \<open>The events GameState emits to its own listeners (the user interface); those
  listeners change no state synchronously, so they are kept as a log, oldest first.\<close>

datatype gs_event =
    Forwarded grid_event
  | MoneyChanged int int
  | ContractStarted contract
  | ContractCleared "contract option"
  | ContractCompleted contract
  | StateLoaded

record game_state =
  grid :: grid
  gridLevel :: int
  money :: int
  unlockedColors :: "string set"
  selectedColor :: string
  upgrades :: "(string \<times> int) list"
  automationEnabled :: "(string \<times> bool) list"
  activeContract :: "contract option"
  completedContracts :: int
  stats :: stats
  events :: "gs_event list"

definition default_stats :: stats where
  "default_stats =
     \<lparr>totalCellsFilled = 0, totalMoneyEarned = 0, totalContractsCompleted = 0, playTime = 0\<rparr>"

definition GameState :: game_state where
  "GameState =
     \<lparr>grid = Grid 4 4, gridLevel = 1, money = 0, unlockedColors = {''black'', ''white''},
      selectedColor = ''black'', upgrades = [], automationEnabled = [],
      activeContract = None, completedContracts = 0, stats = default_stats, events = []\<rparr>"

definition emit :: "gs_event \<Rightarrow> game_state \<Rightarrow> game_state" where
  "emit e s = s\<lparr>events := events s @ [e]\<rparr>"

definition addMoney :: "int \<Rightarrow> game_state \<Rightarrow> bool \<times> game_state" where
  "addMoney amount s =
     (if amount \<le> 0 then (False, s)
      else
        let s1 = s\<lparr>money := money s + amount\<rparr>;
            s2 = s1\<lparr>stats := (stats s1)\<lparr>totalMoneyEarned := totalMoneyEarned (stats s1) + amount\<rparr>\<rparr>
        in (True, emit (MoneyChanged (money s2) amount) s2))"

text \<open>\<open>this.grid.clear()\<close> called from GameState: the only event \<open>clear\<close> can emit is
  \<open>gridCleared\<close>, whose listener forwards it.\<close>

definition grid_clear :: "game_state \<Rightarrow> game_state" where
  "grid_clear s =
     (let (g', evs) = clear (grid s)
      in fold (\<lambda>e. emit (Forwarded e)) evs (s\<lparr>grid := g'\<rparr>))"

definition setActiveContract :: "contract \<Rightarrow> game_state \<Rightarrow> game_state" where
  "setActiveContract c s =
     emit (ContractStarted c) (grid_clear (s\<lparr>activeContract := Some c\<rparr>))"

definition clearContract :: "game_state \<Rightarrow> game_state" where
  "clearContract s =
     emit (ContractCleared (activeContract s)) (grid_clear (s\<lparr>activeContract := None\<rparr>))"

text \<open>\<open>pattern[y]?.[x] ?? null\<close>: a row or an entry that is not there reads as
  \<open>undefined\<close>, which \<open>??\<close> turns into \<open>null\<close>.\<close>

definition pattern_at :: "pattern \<Rightarrow> int \<Rightarrow> int \<Rightarrow> color" where
  "pattern_at p x y =
     (if 0 \<le> y \<and> y < int (length p)
      then (let row = p ! nat y
            in if 0 \<le> x \<and> x < int (length row) then row ! nat x else None)
      else None)"

text \<open>The two loops of \<open>checkContractCompletion\<close>; the accumulator is
  \<open>(allMatch, anyWrong)\<close>, and the outer loop breaks after a row once
  \<open>!allMatch && anyWrong\<close>.\<close>

fun check_row :: "grid \<Rightarrow> pattern \<Rightarrow> int \<Rightarrow> int list \<Rightarrow> bool \<times> bool \<Rightarrow> bool \<times> bool" where
  "check_row g p y [] flags = flags"
| "check_row g p y (x # xs) (allMatch, anyWrong) =
     (let expected = pattern_at p x y;
          actual = getCell g x y
      in check_row g p y xs
           (if expected \<noteq> actual
            then (False, if expected = None \<and> actual \<noteq> None then True else anyWrong)
            else (allMatch, anyWrong)))"

fun check_rows :: "grid \<Rightarrow> pattern \<Rightarrow> int list \<Rightarrow> bool \<times> bool \<Rightarrow> bool \<times> bool" where
  "check_rows g p [] flags = flags"
| "check_rows g p (y # ys) flags =
     (let flags' = check_row g p y [0..width g - 1] flags
      in if \<not> fst flags' \<and> snd flags' then flags' else check_rows g p ys flags')"

definition completeActiveContract :: "game_state \<Rightarrow> bool \<times> game_state" where
  "completeActiveContract s =
     (case activeContract s of
        None \<Rightarrow> (False, s)
      | Some c \<Rightarrow>
          let s1 = snd (addMoney (reward c) s);
              s2 = s1\<lparr>activeContract := None\<rparr>;
              s3 = s2\<lparr>completedContracts := completedContracts s2 + 1\<rparr>;
              s4 = s3\<lparr>stats := (stats s3)\<lparr>totalContractsCompleted :=
                                              totalContractsCompleted (stats s3) + 1\<rparr>\<rparr>;
              s5 = grid_clear s4
          in (True, emit (ContractCompleted c) s5))"

definition checkContractCompletion :: "game_state \<Rightarrow> game_state" where
  "checkContractCompletion s =
     (case activeContract s of
        None \<Rightarrow> s
      | Some c \<Rightarrow>
          let flags = check_rows (grid s) (pattern c) [0..height (grid s) - 1] (True, False)
          in if fst flags then snd (completeActiveContract s) else s)"

text \<open>The listeners GameState installs on its grid in the constructor.\<close>

definition grid_listener :: "grid_event \<Rightarrow> game_state \<Rightarrow> game_state" where
  "grid_listener e s =
     (case e of
        CellChanged x y c old \<Rightarrow>
          checkContractCompletion
            (emit (Forwarded e)
               (s\<lparr>stats := (stats s)\<lparr>totalCellsFilled := totalCellsFilled (stats s) + 1\<rparr>\<rparr>))
      | CellsChanged changes \<Rightarrow>
          checkContractCompletion
            (emit (Forwarded e)
               (s\<lparr>stats := (stats s)\<lparr>totalCellsFilled :=
                                         totalCellsFilled (stats s) + int (length changes)\<rparr>\<rparr>))
      | _ \<Rightarrow> emit (Forwarded e) s)"

text \<open>A call of a method of \<open>this.grid\<close> on the grid GameState owns: the method runs, then
  the listeners run on what it emitted.\<close>

definition on_grid ::
  "(grid \<Rightarrow> 'r \<times> grid \<times> grid_event list) \<Rightarrow> game_state \<Rightarrow> 'r \<times> game_state" where
  "on_grid m s =
     (let (r, g', evs) = m (grid s)
      in (r, fold grid_listener evs (s\<lparr>grid := g'\<rparr>)))"

subsection \<open>GameState.deserialize\<close>

text \<open>The \<open>version\<close> field of a saved document, compared with \<open>!==\<close>: a number, a string
  or nothing.\<close>

datatype version_tag = VMissing | VNumber int | VString string

record save_data =
  sv_version :: version_tag
  sv_grid :: "save_grid option"
  sv_gridLevel :: "int option"
  sv_money :: "int option"
  sv_unlockedColors :: "string list option"
  sv_selectedColor :: "string option"
  sv_upgrades :: "(string \<times> int) list option"
  sv_automationEnabled :: "(string \<times> bool) list option"
  sv_activeContract :: "contract option"
  sv_completedContracts :: "int option"
  sv_stats :: "stats option"

text \<open>A call either returns a value or throws: \<open>this.grid.deserialize(data.grid)\<close> reads
  \<open>data.width\<close> first, a TypeError when \<open>data.grid\<close> is missing.\<close>

datatype 'a outcome = Returned 'a | Threw

definition str_or :: "string option \<Rightarrow> string \<Rightarrow> string" where
  "str_or v d = (case v of None \<Rightarrow> d | Some t \<Rightarrow> if t = [] then d else t)"

definition val_or :: "'a option \<Rightarrow> 'a \<Rightarrow> 'a" where
  "val_or v d = (case v of None \<Rightarrow> d | Some t \<Rightarrow> t)"

text \<open>\<open>data.grid?.width\<close> and \<open>data.grid?.height\<close>.\<close>

definition opt_field :: "('a \<Rightarrow> 'b option) \<Rightarrow> 'a option \<Rightarrow> 'b option" where
  "opt_field f v = (case v of None \<Rightarrow> None | Some r \<Rightarrow> f r)"

text \<open>The assignments of \<open>deserialize\<close> after the grid has been loaded.\<close>

definition load_fields :: "save_data \<Rightarrow> game_state \<Rightarrow> game_state" where
  "load_fields d s =
     emit StateLoaded
       (s\<lparr>gridLevel := num_or (sv_gridLevel d) 1,
          money := num_or (sv_money d) 0,
          unlockedColors := set (val_or (sv_unlockedColors d) [''black'', ''white'']),
          selectedColor := str_or (sv_selectedColor d) ''black'',
          upgrades := val_or (sv_upgrades d) [],
          automationEnabled := val_or (sv_automationEnabled d) [],
          activeContract := sv_activeContract d,
          completedContracts := num_or (sv_completedContracts d) 0,
          stats := val_or (sv_stats d) default_stats\<rparr>)"

definition load_version :: "save_data \<Rightarrow> game_state \<Rightarrow> bool outcome \<times> game_state" where
  "load_version d s =
     (let savedWidth = num_or (opt_field sg_width (sv_grid d)) 4;
          savedHeight = num_or (opt_field sg_height (sv_grid d)) 4;
          s1 = (if savedWidth \<noteq> width (grid s) \<or> savedHeight \<noteq> height (grid s)
                then snd (on_grid (expand savedWidth savedHeight) s)
                else s)
      in (case sv_grid d of
            None \<Rightarrow> (Threw, s1)
          | Some sg \<Rightarrow>
              (Returned True,
               load_fields d (snd (on_grid (\<lambda>g. ((), Grid_deserialize sg g)) s1)))))"

definition deserialize :: "save_data option \<Rightarrow> game_state \<Rightarrow> bool outcome \<times> game_state" where
  "deserialize data s =
     (case data of
        None \<Rightarrow> (Returned False, s)
      | Some d \<Rightarrow>
          (if sv_version d \<noteq> VNumber 2 \<and> sv_version d \<noteq> VNumber 3 \<and> sv_version d \<noteq> VNumber 4
           then (Returned False, s)
           else load_version d s))"

section \<open>Ranks (src/data/ranks.js)\<close>

text \<open>The fields of a rank the engine reads (the free-text \<open>description\<close> is left out).
  Decimal constants are exact rationals.\<close>

record rank =
  level :: int
  name :: string
  contractsRequired :: int
  minGridSize :: int
  requiredColors :: "string list"
  patternComplexity :: string
  rewardMultiplier :: rat

definition RANKS :: "rank list" where
  "RANKS =
    [\<lparr>level = 1, name = ''Novice'', contractsRequired = 0, minGridSize = 4,
      requiredColors = [''black'', ''white''],
      patternComplexity = ''simple'', rewardMultiplier = 1\<rparr>,
     \<lparr>level = 2, name = ''Apprentice'', contractsRequired = 5, minGridSize = 4,
      requiredColors = [''black'', ''white''],
      patternComplexity = ''basic'', rewardMultiplier = 12 / 10\<rparr>,
     \<lparr>level = 3, name = ''Journeyman'', contractsRequired = 10, minGridSize = 6,
      requiredColors = [''black'', ''white''],
      patternComplexity = ''medium'', rewardMultiplier = 15 / 10\<rparr>,
     \<lparr>level = 4, name = ''Artisan'', contractsRequired = 18, minGridSize = 6,
      requiredColors = [''black'', ''white'', ''red''],
      patternComplexity = ''medium'', rewardMultiplier = 18 / 10\<rparr>,
     \<lparr>level = 5, name = ''Expert'', contractsRequired = 28, minGridSize = 8,
      requiredColors = [''black'', ''white'', ''red'', ''blue''],
      patternComplexity = ''complex'', rewardMultiplier = 22 / 10\<rparr>,
     \<lparr>level = 6, name = ''Master'', contractsRequired = 40, minGridSize = 8,
      requiredColors = [''black'', ''white'', ''red'', ''blue'', ''green''],
      patternComplexity = ''complex'', rewardMultiplier = 28 / 10\<rparr>,
     \<lparr>level = 7, name = ''Grandmaster'', contractsRequired = 55, minGridSize = 10,
      requiredColors = [''black'', ''white'', ''red'', ''blue'', ''green'', ''yellow''],
      patternComplexity = ''advanced'', rewardMultiplier = 35 / 10\<rparr>,
     \<lparr>level = 8, name = ''Virtuoso'', contractsRequired = 75, minGridSize = 12,
      requiredColors = [''black'', ''white'', ''red'', ''blue'', ''green'', ''yellow'', ''purple''],
      patternComplexity = ''advanced'', rewardMultiplier = 45 / 10\<rparr>,
     \<lparr>level = 9, name = ''Legend'', contractsRequired = 100, minGridSize = 16,
      requiredColors = [''black'', ''white'', ''red'', ''blue'', ''green'', ''yellow'', ''purple'',
                        ''orange''],
      patternComplexity = ''expert'', rewardMultiplier = 6\<rparr>,
     \<lparr>level = 10, name = ''Mythic'', contractsRequired = 150, minGridSize = 20,
      requiredColors = [''black'', ''white'', ''red'', ''blue'', ''green'', ''yellow'', ''purple'',
                        ''orange'', ''cyan'', ''pink''],
      patternComplexity = ''master'', rewardMultiplier = 8\<rparr>]"

text \<open>\<open>RANKS.find(r => r.level === level) || RANKS[0]\<close>: a rank object is truthy, so the
  fallback is taken exactly when no rank has that level.\<close>

definition getRank :: "int \<Rightarrow> rank" where
  "getRank l = (case find (\<lambda>r. level r = l) RANKS of Some r \<Rightarrow> r | None \<Rightarrow> RANKS ! 0)"

definition getMaxRank :: int where
  "getMaxRank = level (RANKS ! (length RANKS - 1))"

fun has_all :: "string list \<Rightarrow> string set \<Rightarrow> bool" where
  "has_all [] unlocked = True"
| "has_all (c # cs) unlocked = (if c \<notin> unlocked then False else has_all cs unlocked)"

definition canAccessRank :: "rank \<Rightarrow> int \<Rightarrow> int \<Rightarrow> string set \<Rightarrow> bool" where
  "canAccessRank r completed gridSize unlocked =
     (if completed < contractsRequired r then False
      else if gridSize < minGridSize r then False
      else has_all (requiredColors r) unlocked)"

definition getBaseReward :: "string \<Rightarrow> int" where
  "getBaseReward complexity =
     (if complexity = ''simple'' then 5
      else if complexity = ''basic'' then 8
      else if complexity = ''medium'' then 12
      else if complexity = ''complex'' then 18
      else if complexity = ''advanced'' then 25
      else if complexity = ''expert'' then 35
      else if complexity = ''master'' then 50
      else 5)"

section \<open>JavaScript numbers\<close>

text \<open>
  The numbers of the cost computation are IEEE 754 doubles: a rational, an infinity or NaN
  (zero carries no sign here). \<open>to_double\<close> rounds a rational to the nearest double, ties
  to even: a significand of 53 bits, exponents from -1022 (below that the spacing stays
  that of the subnormal numbers), and infinity once the rounded value reaches \<open>2^1024\<close>.
  A decimal literal denotes the double nearest to it, and \<open>*\<close> rounds the exact product.
  \<open>Math.pow\<close> with a whole exponent is taken as correctly rounded: the double nearest to
  the exact power of its argument.
\<close>

datatype jsnum = Num rat | PosInfinity | NegInfinity | NaN

text \<open>The exponent \<open>e\<close> with \<open>2^e \<le> x < 2^(e+1)\<close>, for a positive \<open>x\<close>.\<close>

definition ilog2 :: "rat \<Rightarrow> int" where
  "ilog2 x =
     (let (p, q) = quotient_of x;
          d = bitlen p - bitlen q
      in if 2 powi d \<le> x then d else d - 1)"

definition round_even :: "rat \<Rightarrow> int" where
  "round_even q =
     (let f = \<lfloor>q\<rfloor>;
          r = q - of_int f
      in if r < 1 / 2 then f
         else if 1 / 2 < r then f + 1
         else if even f then f else f + 1)"

definition to_double :: "rat \<Rightarrow> jsnum" where
  "to_double x =
     (if x = 0 then Num 0
      else
        let a = \<bar>x\<bar>;
            e = max (ilog2 a) (- 1022);
            ulp = 2 powi (e - 52);
            r = of_int (round_even (a / ulp)) * ulp
        in if 2 powi 1024 \<le> r then (if 0 < x then PosInfinity else NegInfinity)
           else Num (if 0 < x then r else - r))"

fun js_mul :: "jsnum \<Rightarrow> jsnum \<Rightarrow> jsnum" where
  "js_mul (Num a) (Num b) = to_double (a * b)"
| "js_mul NaN y = NaN"
| "js_mul x NaN = NaN"
| "js_mul (Num a) PosInfinity = (if a = 0 then NaN else if 0 < a then PosInfinity else NegInfinity)"
| "js_mul (Num a) NegInfinity = (if a = 0 then NaN else if 0 < a then NegInfinity else PosInfinity)"
| "js_mul PosInfinity (Num b) = (if b = 0 then NaN else if 0 < b then PosInfinity else NegInfinity)"
| "js_mul NegInfinity (Num b) = (if b = 0 then NaN else if 0 < b then NegInfinity else PosInfinity)"
| "js_mul PosInfinity PosInfinity = PosInfinity"
| "js_mul PosInfinity NegInfinity = NegInfinity"
| "js_mul NegInfinity PosInfinity = NegInfinity"
| "js_mul NegInfinity NegInfinity = PosInfinity"

text \<open>\<open>Math.pow(x, n)\<close> for a whole number \<open>n \<ge> 0\<close>; the result is 1 for \<open>n = 0\<close>, whatever
  \<open>x\<close> is.\<close>

fun js_pow :: "jsnum \<Rightarrow> nat \<Rightarrow> jsnum" where
  "js_pow (Num a) n = to_double (a ^ n)"
| "js_pow PosInfinity n = (if n = 0 then Num 1 else PosInfinity)"
| "js_pow NegInfinity n = (if n = 0 then Num 1 else if even n then PosInfinity else NegInfinity)"
| "js_pow NaN n = (if n = 0 then Num 1 else NaN)"

fun js_floor :: "jsnum \<Rightarrow> jsnum" where
  "js_floor (Num a) = Num (of_int \<lfloor>a\<rfloor>)"
| "js_floor x = x"

text \<open>\<open><\<close> on numbers: false whenever an operand is NaN.\<close>

fun js_less :: "jsnum \<Rightarrow> jsnum \<Rightarrow> bool" where
  "js_less (Num a) (Num b) = (a < b)"
| "js_less (Num a) PosInfinity = True"
| "js_less NegInfinity (Num b) = True"
| "js_less NegInfinity PosInfinity = True"
| "js_less x y = False"

section \<open>Upgrades (src/data/upgrades.js)\<close>

text \<open>The fields of an upgrade that pricing reads; \<open>baseCost\<close> and \<open>costMultiplier\<close> hold the
  decimal literals of the source, which \<open>price\<close> reads as doubles.\<close>

record upgrade =
  uid :: string
  baseCost :: rat
  costMultiplier :: rat
  maxLevel :: nat

definition UPGRADES :: "(string \<times> upgrade) list" where
  "UPGRADES =
    [(''hold_to_paint'',
      \<lparr>uid = ''hold_to_paint'', baseCost = 25, costMultiplier = 1, maxLevel = 1\<rparr>),
     (''money_boost'',
      \<lparr>uid = ''money_boost'', baseCost = 40, costMultiplier = 2, maxLevel = 20\<rparr>),
     (''multi_brush'',
      \<lparr>uid = ''multi_brush'', baseCost = 200, costMultiplier = 25 / 10, maxLevel = 5\<rparr>),
     (''undo_buffer'',
      \<lparr>uid = ''undo_buffer'', baseCost = 75, costMultiplier = 15 / 10, maxLevel = 5\<rparr>),
     (''contract_preview'',
      \<lparr>uid = ''contract_preview'', baseCost = 150, costMultiplier = 1, maxLevel = 1\<rparr>),
     (''precision_mode'',
      \<lparr>uid = ''precision_mode'', baseCost = 100, costMultiplier = 1, maxLevel = 1\<rparr>),
     (''auto_start_contract'',
      \<lparr>uid = ''auto_start_contract'', baseCost = 50, costMultiplier = 1, maxLevel = 1\<rparr>),
     (''speed_boost'',
      \<lparr>uid = ''speed_boost'', baseCost = 500, costMultiplier = 22 / 10, maxLevel = 10\<rparr>)]"

record auto_painter_config =
  ap_baseCost :: rat
  ap_costMultiplier :: rat
  ap_maxLevel :: nat
  ap_baseInterval :: rat
  ap_intervalReductionPerLevel :: rat

definition AUTO_PAINTER_CONFIG :: auto_painter_config where
  "AUTO_PAINTER_CONFIG =
     \<lparr>ap_baseCost = 75, ap_costMultiplier = 15 / 10, ap_maxLevel = 5,
      ap_baseInterval = 5000, ap_intervalReductionPerLevel = 15 / 100\<rparr>"

definition isAutoPainterUpgrade :: "string \<Rightarrow> bool" where
  "isAutoPainterUpgrade upgradeId = prefix ''auto_painter_'' upgradeId"

text \<open>\<open>Math.floor(baseCost * Math.pow(costMultiplier, currentLevel))\<close>, the expression of
  both branches of \<open>getUpgradeCost\<close>.\<close>

definition price :: "rat \<Rightarrow> rat \<Rightarrow> nat \<Rightarrow> jsnum" where
  "price b m L = js_floor (js_mul (to_double b) (js_pow (to_double m) L))"

text \<open>
  \<open>UPGRADES[upgradeId]\<close> also finds what every object inherits from \<open>Object.prototype\<close>.
  For these names the value found is a function or an object: it is truthy and has no
  \<open>baseCost\<close>, so the product is NaN. For any other unknown name the lookup gives
  \<open>undefined\<close> and the function returns \<open>Infinity\<close>.
\<close>

definition Object_prototype_keys :: "string list" where
  "Object_prototype_keys =
     [''constructor'', ''__defineGetter__'', ''__defineSetter__'', ''hasOwnProperty'',
      ''__lookupGetter__'', ''__lookupSetter__'', ''isPrototypeOf'', ''propertyIsEnumerable'',
      ''toString'', ''valueOf'', ''__proto__'', ''toLocaleString'']"

definition getUpgradeCost :: "string \<Rightarrow> nat \<Rightarrow> jsnum" where
  "getUpgradeCost upgradeId currentLevel =
     (if isAutoPainterUpgrade upgradeId
      then price (ap_baseCost AUTO_PAINTER_CONFIG) (ap_costMultiplier AUTO_PAINTER_CONFIG)
             currentLevel
      else (case map_of UPGRADES upgradeId of
              Some u \<Rightarrow> price (baseCost u) (costMultiplier u) currentLevel
            | None \<Rightarrow>
                if upgradeId \<in> set Object_prototype_keys then NaN else PosInfinity))"

section \<open>ContractSystem (src/systems/ContractSystem.js)\<close>

record contract_system =
  contractIdCounter :: nat
  selectedRankLevel :: "int option"

definition gridSize_of :: "game_state \<Rightarrow> int" where
  "gridSize_of s = min (width (grid s)) (height (grid s))"

text \<open>The loop of \<open>getHighestAccessibleRank\<close> over the levels \<open>1 .. getMaxRank()\<close>, which
  breaks at the first inaccessible rank.\<close>

fun highest_loop :: "game_state \<Rightarrow> int list \<Rightarrow> int \<Rightarrow> int" where
  "highest_loop s [] highest = highest"
| "highest_loop s (l # ls) highest =
     (if canAccessRank (getRank l) (completedContracts s) (gridSize_of s) (unlockedColors s)
      then highest_loop s ls l
      else highest)"

definition getHighestAccessibleRank :: "game_state \<Rightarrow> int" where
  "getHighestAccessibleRank s = highest_loop s [1..getMaxRank] 1"

definition countPatternCells :: "pattern \<Rightarrow> int" where
  "countPatternCells p = int (length (filter (\<lambda>cell. cell \<noteq> None) (concat p)))"

definition getMoneyBoostMultiplier :: "game_state \<Rightarrow> rat" where
  "getMoneyBoostMultiplier s =
     1 + of_int (num_or (map_of (upgrades s) ''money_boost'') 0) * (15 / 100)"

text \<open>
  \<open>generateContract\<close>. The pattern comes from \<open>generatePattern\<close>, which draws random
  numbers; it is the parameter \<open>gen\<close>, applied to the rank and the grid size as in the
  source, and \<open>now\<close> is \<open>Date.now()\<close>. The test \<open>if (!rank) return null\<close> after \<open>getRank\<close>
  can never fire, a rank object being truthy, and has no branch here.
\<close>

definition generateContract ::
  "int option \<Rightarrow> (rank \<Rightarrow> int \<Rightarrow> pattern) \<Rightarrow> int \<Rightarrow> contract_system \<Rightarrow> game_state
     \<Rightarrow> contract option \<times> contract_system" where
  "generateContract requested gen now cs s =
     (let rl = (case requested of None \<Rightarrow> getHighestAccessibleRank s | Some l \<Rightarrow> l);
          r = getRank rl;
          gridSize = gridSize_of s
      in if \<not> canAccessRank r (completedContracts s) gridSize (unlockedColors s)
         then (None, cs)
         else
           let p = gen r gridSize;
               cnt = countPatternCells p;
               baseReward = getBaseReward (patternComplexity r);
               moneyBoost = getMoneyBoostMultiplier s;
               rew = \<lfloor>of_int baseReward * rewardMultiplier r * moneyBoost
                       * (of_int cnt / 4)\<rfloor>;
               cs' = cs\<lparr>contractIdCounter := contractIdCounter cs + 1\<rparr>
           in (Some \<lparr>cid = contractIdCounter cs', rankLevel = level r, rankName = name r,
                      pattern = p, reward = max rew 1, cellCount = cnt, createdAt = now\<rparr>,
               cs'))"

section \<open>AutoPainterSystem (src/systems/AutoPainterSystem.js)\<close>

text \<open>
  The scan of \<open>paintNextCell\<close>: \<open>Some s'\<close> is the state at the \<open>return true\<close> inside the
  loops, \<open>None\<close> means the loop ran through. The pattern is read as \<open>pattern[y]?.[x]\<close>,
  where \<open>undefined\<close> and \<open>null\<close> both differ from every colour string, so \<open>pattern_at\<close>
  reads it. The grid is not changed before the cell is painted, so each test reads the
  state the call started with.
\<close>

fun paint_row :: "string \<Rightarrow> pattern \<Rightarrow> game_state \<Rightarrow> int \<Rightarrow> int list \<Rightarrow> game_state option" where
  "paint_row colorId p s y [] = None"
| "paint_row colorId p s y (x # xs) =
     (let expected = pattern_at p x y;
          actual = getCell (grid s) x y
      in if expected = Some colorId \<and> actual \<noteq> Some colorId
         then Some (snd (on_grid (setCell x y (Some colorId) True) s))
         else paint_row colorId p s y xs)"

fun paint_rows :: "string \<Rightarrow> pattern \<Rightarrow> game_state \<Rightarrow> int list \<Rightarrow> game_state option" where
  "paint_rows colorId p s [] = None"
| "paint_rows colorId p s (y # ys) =
     (case paint_row colorId p s y [0..width (grid s) - 1] of
        Some s' \<Rightarrow> Some s'
      | None \<Rightarrow> paint_rows colorId p s ys)"

definition paintNextCell :: "string \<Rightarrow> game_state \<Rightarrow> bool \<times> game_state" where
  "paintNextCell colorId s =
     (case activeContract s of
        None \<Rightarrow> (False, s)
      | Some c \<Rightarrow>
          (case paint_rows colorId (pattern c) s [0..height (grid s) - 1] of
             Some s' \<Rightarrow> (True, s')
           | None \<Rightarrow> (False, s)))"

section \<open>Notions used to state the results\<close>

text \<open>The grid a Grid method leaves behind, and \<open>undo\<close> as a map on grids.\<close>

definition grid_of :: "'r \<times> grid \<times> grid_event list \<Rightarrow> grid" where
  "grid_of r = fst (snd r)"

definition undo_grid :: "grid \<Rightarrow> grid" where
  "undo_grid g = grid_of (undo g)"

text \<open>A grid with no stored cell and a history that is not empty: paint a cell, then erase
  it.\<close>

definition erased_grid :: grid where
  "erased_grid =
     grid_of (setCell 0 0 None True (grid_of (setCell 0 0 (Some ''black'') True (Grid 4 4))))"

text \<open>The grid agrees with the pattern at every coordinate of the grid.\<close>

definition grid_matches :: "grid \<Rightarrow> pattern \<Rightarrow> bool" where
  "grid_matches g p =
     list_all (\<lambda>y. list_all (\<lambda>x. getCell g x y = pattern_at p x y) [0..width g - 1])
       [0..height g - 1]"

text \<open>A contract on the 4 by 4 grid asking for black at (0, 0) and white at (1, 0), the state
  right after it was accepted, the same state with exactly these two cells painted, and
  with one more cell painted red at (2, 0).\<close>

definition demo_contract :: contract where
  "demo_contract =
     \<lparr>cid = 1, rankLevel = 1, rankName = ''Novice'',
      pattern = [[Some ''black'', Some ''white'', None, None],
                 [None, None, None, None],
                 [None, None, None, None],
                 [None, None, None, None]],
      reward = 7, cellCount = 2, createdAt = 0\<rparr>"

definition started_state :: game_state where
  "started_state = setActiveContract demo_contract GameState"

definition two_cells :: grid where
  "two_cells =
     grid_of (setCell 1 0 (Some ''white'') True
       (grid_of (setCell 0 0 (Some ''black'') True (Grid 4 4))))"

definition matched_state :: game_state where
  "matched_state = started_state\<lparr>grid := two_cells\<rparr>"

definition extra_state :: game_state where
  "extra_state = started_state\<lparr>grid := grid_of (setCell 2 0 (Some ''red'') True two_cells)\<rparr>"

text \<open>The operations of a Grid, as steps, and the grid after a run of steps.\<close>

datatype grid_op =
    OpSetCell int int color bool
  | OpSetCells "(int \<times> int \<times> color) list" bool
  | OpUndo
  | OpExpand int int
  | OpClear
  | OpDeserialize save_grid

fun apply_op :: "grid_op \<Rightarrow> grid \<Rightarrow> grid" where
  "apply_op (OpSetCell x y c rh) g = grid_of (setCell x y c rh g)"
| "apply_op (OpSetCells changes rh) g = grid_of (setCells changes rh g)"
| "apply_op OpUndo g = grid_of (undo g)"
| "apply_op (OpExpand w h) g = grid_of (expand w h g)"
| "apply_op OpClear g = fst (clear g)"
| "apply_op (OpDeserialize d) g = fst (Grid_deserialize d g)"

definition run :: "grid_op list \<Rightarrow> grid \<Rightarrow> grid" where
  "run ops g = fold apply_op ops g"

fun is_deserialize :: "grid_op \<Rightarrow> bool" where
  "is_deserialize (OpDeserialize d) = True"
| "is_deserialize _ = False"

text \<open>Every stored coordinate, and every coordinate an undo would write, is in range.\<close>

definition cells_in_range :: "grid \<Rightarrow> bool" where
  "cells_in_range g = list_all (\<lambda>((x, y), c). isValid g x y) (cells g)"

definition history_in_range :: "grid \<Rightarrow> bool" where
  "history_in_range g = list_all (\<lambda>e. isValid g (hx e) (hy e)) (history g)"

definition grid_ok :: "grid \<Rightarrow> bool" where
  "grid_ok g = (cells_in_range g \<and> history_in_range g)"

text \<open>A saved grid whose cells lie within its own dimensions, as \<open>serialize\<close> writes it
  from a grid whose cells are in range.\<close>

definition save_in_range :: "save_grid \<Rightarrow> bool" where
  "save_in_range d =
     (let w = num_or (sg_width d) 4;
          h = num_or (sg_height d) 4
      in case sg_cells d of
           NotArray \<Rightarrow> True
         | SparseCells ts \<Rightarrow>
             list_all (\<lambda>(x, y, c). c = None \<or> (0 \<le> x \<and> x < w \<and> 0 \<le> y \<and> y < h)) ts
         | FlatCells vs \<Rightarrow> 0 < w \<and> int (length vs) \<le> w * h)"

fun op_in_range :: "grid_op \<Rightarrow> bool" where
  "op_in_range (OpDeserialize d) = save_in_range d"
| "op_in_range _ = True"

text \<open>A 6 by 6 game, a well-formed save of a 4 by 4 game, and a save with a cell outside its
  own dimensions.\<close>

definition expanded_state :: game_state where
  "expanded_state = snd (on_grid (expand 6 6) GameState)"

definition empty_save :: save_data where
  "empty_save =
     \<lparr>sv_version = VNumber 4, sv_grid = None, sv_gridLevel = None, sv_money = None,
      sv_unlockedColors = None, sv_selectedColor = None, sv_upgrades = None,
      sv_automationEnabled = None, sv_activeContract = None, sv_completedContracts = None,
      sv_stats = None\<rparr>"

definition small_save :: save_data where
  "small_save =
     empty_save\<lparr>sv_grid := Some \<lparr>sg_width = Some 4, sg_height = Some 4,
                                  sg_cells = SparseCells [(1, 1, Some ''red'')]\<rparr>,
                 sv_money := Some 12\<rparr>"

definition stray_save :: save_data where
  "stray_save =
     empty_save\<lparr>sv_grid := Some \<lparr>sg_width = Some 4, sg_height = Some 4,
                                  sg_cells = SparseCells [(9, 9, Some ''red'')]\<rparr>\<rparr>"

text \<open>A run of Grid operations: paint, grow, paint in the new area, undo, paint a batch
  with one coordinate out of range.\<close>

definition demo_ops :: "grid_op list" where
  "demo_ops =
     [OpSetCell 1 1 (Some ''red'') True, OpExpand 6 6, OpSetCell 5 5 (Some ''blue'') True,
      OpUndo, OpSetCells [(0, 0, Some ''black''), (7, 7, Some ''white'')] True]"

text \<open>The base cost, the multiplier and the level cap \<open>getUpgradeCost\<close> and the shop read for
  an upgrade identifier: the shared auto-painter configuration, or the catalogue entry;
  none for an unknown identifier.\<close>

definition upgrade_params :: "string \<Rightarrow> (rat \<times> rat \<times> nat) option" where
  "upgrade_params upgradeId =
     (if isAutoPainterUpgrade upgradeId
      then Some (ap_baseCost AUTO_PAINTER_CONFIG, ap_costMultiplier AUTO_PAINTER_CONFIG,
                 ap_maxLevel AUTO_PAINTER_CONFIG)
      else map_option (\<lambda>u. (baseCost u, costMultiplier u, maxLevel u))
             (map_of UPGRADES upgradeId))"

text \<open>The coordinates of a grid in row-major order, the test of the auto-painter on one
  coordinate, and the first coordinate that passes it.\<close>

definition row_major :: "int \<Rightarrow> int \<Rightarrow> (int \<times> int) list" where
  "row_major w h = concat (map (\<lambda>y. map (\<lambda>x. (x, y)) [0..w - 1]) [0..h - 1])"

definition needs_color :: "string \<Rightarrow> pattern \<Rightarrow> grid \<Rightarrow> int \<times> int \<Rightarrow> bool" where
  "needs_color colorId p g = (\<lambda>(x, y). pattern_at p x y = Some colorId \<and> getCell g x y \<noteq> Some colorId)"

definition first_needed :: "string \<Rightarrow> pattern \<Rightarrow> grid \<Rightarrow> (int \<times> int) option" where
  "first_needed colorId p g = find (needs_color colorId p g) (row_major (width g) (height g))"

text \<open>The grid with one cell painted and the edit recorded.\<close>

definition painted :: "grid \<Rightarrow> int \<Rightarrow> int \<Rightarrow> string \<Rightarrow> grid" where
  "painted g x y colorId =
     g\<lparr>cells := AList.update (key x y) colorId (cells g),
       history := push_history
                    \<lparr>hx = x, hy = y, oldColor = getCell g x y, newColor = Some colorId\<rparr>
                    (history g)\<rparr>"

text \<open>The state in which the completion check starts after a paint: the cell painted and
  recorded, the edit counted in the statistics, \<open>cellChanged\<close> forwarded.\<close>

definition cell_painted :: "game_state \<Rightarrow> int \<Rightarrow> int \<Rightarrow> string \<Rightarrow> game_state" where
  "cell_painted s x y colorId =
     emit (Forwarded (CellChanged x y (Some colorId) (Some (getCell (grid s) x y))))
       (s\<lparr>grid := painted (grid s) x y colorId,
          stats := (stats s)\<lparr>totalCellsFilled := totalCellsFilled (stats s) + 1\<rparr>\<rparr>)"

text \<open>The state right after \<open>demo_contract\<close> was accepted, with its black cell painted.\<close>

definition half_state :: game_state where
  "half_state = started_state\<lparr>grid := painted (Grid 4 4) 0 0 ''black''\<rparr>"

section \<open>Results\<close>

subsection \<open>Expanding the grid\<close>

text \<open>
  C3. \<open>expand\<close> returns false, emits nothing and leaves the grid as it is whenever one of
  the requested dimensions is smaller than the current one, so neither dimension ever
  decreases through \<open>expand\<close>; an \<open>expand\<close> that returns true sets both dimensions to the
  requested ones and empties the undo history.
\<close>

theorem expand_never_shrinks:
  "(newWidth < width g \<or> newHeight < height g \<longrightarrow> expand newWidth newHeight g = (False, g, []))
   \<and> width g \<le> width (fst (snd (expand newWidth newHeight g)))
   \<and> height g \<le> height (fst (snd (expand newWidth newHeight g)))
   \<and> (fst (expand newWidth newHeight g) \<longrightarrow>
        width (fst (snd (expand newWidth newHeight g))) = newWidth
      \<and> height (fst (snd (expand newWidth newHeight g))) = newHeight
      \<and> history (fst (snd (expand newWidth newHeight g))) = [])"
  by (simp add: expand_def)

theorem expand_never_shrinks_witness:
  "(3 < width two_cells \<or> 4 < height two_cells)
   \<and> expand 3 4 two_cells = (False, two_cells, [])
   \<and> length (history two_cells) = 2
   \<and> fst (expand 6 5 two_cells)
   \<and> width (grid_of (expand 6 5 two_cells)) = 6
   \<and> height (grid_of (expand 6 5 two_cells)) = 5
   \<and> history (grid_of (expand 6 5 two_cells)) = []"
  using expand_never_shrinks [of 3 two_cells 4] expand_never_shrinks [of 6 two_cells 5]
  by (simp add: two_cells_def Grid_def isValid_def setCell_def key_def or_null_def store_def
      push_history_def maxHistory_def grid_of_def Let_def expand_def)

subsection \<open>Undo\<close>

lemma or_null_idem: "or_null (or_null v) = or_null v"
  by (simp add: or_null_def split: option.splits)

lemma map_of_store: "map_of (store k c cs) = (map_of cs)(k := c)"
  by (cases c) (simp_all add: store_def update_conv' delete_conv')

lemma push_history_last: "last (push_history e h) = e"
  by (cases h) (simp_all add: push_history_def Let_def maxHistory_def)

lemma push_history_nonempty: "push_history e h \<noteq> []"
  by (cases h) (auto simp add: push_history_def Let_def maxHistory_def)

lemma getCell_store_undo:
  "getCell (g\<lparr>cells := store k (or_null (map_of (cells g) k)) (store k c (cells g)), history := h\<rparr>) x' y'
     = getCell g x' y'"
  by (simp add: getCell_def isValid_def map_of_store or_null_idem)

lemma undo_history_length: "length (history (undo_grid g)) = length (history g) - 1"
  by (simp add: undo_grid_def grid_of_def undo_def Let_def)

lemma undo_iter_history: "length (history ((undo_grid ^^ n) g)) = length (history g) - n"
  by (induction n) (simp_all add: undo_history_length)

lemma undo_empty: "history g = [] \<Longrightarrow> undo g = (False, g, [])"
  by (simp add: undo_def)

text \<open>
  C2. For a valid coordinate and a colour different from the one \<open>getCell\<close> reports,
  \<open>setCell\<close> followed by \<open>undo\<close> (on a Grid of its own, nothing else touching it in
  between) gives back the colour of every cell as it was before, and both calls return
  true. With an empty history \<open>undo\<close> returns false, emits nothing and leaves the grid as
  it is; this is where every run of at least as many undos as there are recorded edits
  ends up.
\<close>

theorem setCell_undo_inverse:
  "(isValid g x y \<and> c \<noteq> getCell g x y \<longrightarrow>
      fst (setCell x y c True g)
    \<and> fst (undo (grid_of (setCell x y c True g)))
    \<and> (\<forall>x' y'. getCell (grid_of (undo (grid_of (setCell x y c True g)))) x' y' = getCell g x' y')
    \<and> width (grid_of (undo (grid_of (setCell x y c True g)))) = width g
    \<and> height (grid_of (undo (grid_of (setCell x y c True g)))) = height g)
   \<and> (history g = [] \<longrightarrow> undo g = (False, g, []))
   \<and> (length (history g) \<le> n \<longrightarrow>
        undo ((undo_grid ^^ n) g) = (False, (undo_grid ^^ n) g, []))"
proof (intro conjI impI)
  assume a: "isValid g x y \<and> c \<noteq> getCell g x y"
  then have ne: "or_null (map_of (cells g) (key x y)) \<noteq> c"
    by (auto simp add: getCell_def)
  let ?e = "\<lparr>hx = x, hy = y, oldColor = or_null (map_of (cells g) (key x y)), newColor = c\<rparr>"
  have sc: "setCell x y c True g =
      (True, g\<lparr>cells := store (key x y) c (cells g), history := push_history ?e (history g)\<rparr>,
       [CellChanged x y c (Some (or_null (map_of (cells g) (key x y))))])"
    using a ne by (simp add: setCell_def Let_def)
  show "fst (setCell x y c True g)" by (simp add: sc)
  show "fst (undo (grid_of (setCell x y c True g)))"
    by (simp add: sc grid_of_def undo_def Let_def push_history_nonempty)
  have un: "grid_of (undo (grid_of (setCell x y c True g))) =
      g\<lparr>cells := store (key x y) (or_null (map_of (cells g) (key x y))) (store (key x y) c (cells g)),
        history := butlast (push_history ?e (history g))\<rparr>"
    by (simp add: sc grid_of_def undo_def Let_def push_history_nonempty push_history_last)
  show "\<forall>x' y'. getCell (grid_of (undo (grid_of (setCell x y c True g)))) x' y' = getCell g x' y'"
    unfolding un by (simp add: getCell_store_undo)
  show "width (grid_of (undo (grid_of (setCell x y c True g)))) = width g"
    unfolding un by simp
  show "height (grid_of (undo (grid_of (setCell x y c True g)))) = height g"
    unfolding un by simp
next
  assume "history g = []"
  then show "undo g = (False, g, [])" by (rule undo_empty)
next
  assume "length (history g) \<le> n"
  then have "history ((undo_grid ^^ n) g) = []"
    using undo_iter_history [of n g] by simp
  then show "undo ((undo_grid ^^ n) g) = (False, (undo_grid ^^ n) g, [])" by (rule undo_empty)
qed

theorem setCell_undo_inverse_witness:
  "isValid (Grid 4 4) 1 2 \<and> Some ''red'' \<noteq> getCell (Grid 4 4) 1 2
   \<and> fst (undo (grid_of (setCell 1 2 (Some ''red'') True (Grid 4 4))))
   \<and> getCell (grid_of (setCell 1 2 (Some ''red'') True (Grid 4 4))) 1 2 = Some ''red''
   \<and> getCell (grid_of (undo (grid_of (setCell 1 2 (Some ''red'') True (Grid 4 4))))) 1 2 = None
   \<and> history (Grid 4 4) = []
   \<and> length (history (grid_of (setCell 1 2 (Some ''red'') True (Grid 4 4)))) \<le> 3
   \<and> undo ((undo_grid ^^ 3) (grid_of (setCell 1 2 (Some ''red'') True (Grid 4 4))))
       = (False, Grid 4 4, [])"
  using setCell_undo_inverse [of "Grid 4 4" 1 2 "Some ''red''" 0]
    setCell_undo_inverse [of "grid_of (setCell 1 2 (Some ''red'') True (Grid 4 4))" 0 0 None 3]
  by (simp add: Grid_def isValid_def getCell_def setCell_def key_def or_null_def store_def
      push_history_def maxHistory_def grid_of_def undo_def undo_grid_def Let_def numeral_3_eq_3)

subsection \<open>Clearing the grid\<close>

text \<open>
  C5 (as amended). After \<open>clear\<close> the grid has no stored cell. When it had a stored cell
  before, \<open>clear\<close> also empties the undo history and emits \<open>gridCleared\<close>, so that an
  \<open>undo\<close> right after returns false and changes nothing. When it had no stored cell,
  \<open>clear\<close> emits nothing and changes nothing, the undo history included.
\<close>

theorem clear_result:
  "cells (fst (clear g)) = []
   \<and> (cells g \<noteq> [] \<longrightarrow>
        clear g = (g\<lparr>cells := [], history := []\<rparr>, [GridCleared])
      \<and> undo (fst (clear g)) = (False, fst (clear g), []))
   \<and> (cells g = [] \<longrightarrow> clear g = (g, []))"
  by (simp add: clear_def undo_def)

theorem clear_result_witness:
  "cells (grid_of (setCell 0 0 (Some ''black'') True (Grid 4 4))) \<noteq> []
   \<and> history (grid_of (setCell 0 0 (Some ''black'') True (Grid 4 4))) \<noteq> []
   \<and> clear (grid_of (setCell 0 0 (Some ''black'') True (Grid 4 4))) = (Grid 4 4, [GridCleared])
   \<and> undo (Grid 4 4) = (False, Grid 4 4, [])
   \<and> cells (Grid 4 4) = [] \<and> clear (Grid 4 4) = (Grid 4 4, [])"
  using clear_result [of "grid_of (setCell 0 0 (Some ''black'') True (Grid 4 4))"]
    clear_result [of "Grid 4 4"]
  by (simp add: Grid_def isValid_def setCell_def key_def or_null_def store_def
      push_history_def maxHistory_def grid_of_def Let_def clear_def undo_def)

text \<open>
  C5 as stated fails on a grid whose only cell was painted and then erased: no cell is
  stored, so \<open>clear\<close> returns at once, the two history entries stay, and the \<open>undo\<close>
  that follows returns true.
\<close>

theorem clear_keeps_history_counterexample:
  "cells erased_grid = []
   \<and> history (fst (clear erased_grid)) \<noteq> []
   \<and> fst (undo (fst (clear erased_grid))) = True"
  by (simp add: erased_grid_def Grid_def isValid_def setCell_def key_def or_null_def store_def
      push_history_def maxHistory_def grid_of_def Let_def clear_def undo_def AList.delete_eq)

subsection \<open>Contract completion\<close>

lemma check_row_fst:
  "fst (check_row g p y xs flags) =
     (fst flags \<and> list_all (\<lambda>x. getCell g x y = pattern_at p x y) xs)"
proof (induction xs arbitrary: flags)
  case Nil
  then show ?case by simp
next
  case (Cons x xs)
  obtain a w where f: "flags = (a, w)" by (cases flags)
  show ?case unfolding f by (auto simp add: Cons.IH Let_def)
qed

lemma check_rows_fst:
  "fst (check_rows g p ys flags) =
     (fst flags \<and>
      list_all (\<lambda>y. list_all (\<lambda>x. getCell g x y = pattern_at p x y) [0..width g - 1]) ys)"
proof (induction ys arbitrary: flags)
  case Nil
  then show ?case by simp
next
  case (Cons y ys)
  show ?case by (auto simp add: Cons.IH Let_def check_row_fst)
qed

lemma grid_matches_iff:
  "grid_matches g p = (\<forall>x y. isValid g x y \<longrightarrow> getCell g x y = pattern_at p x y)"
  by (auto simp add: grid_matches_def list_all_iff isValid_def)

lemma grid_clear_fields:
  "cells (grid (grid_clear s)) = []"
  "money (grid_clear s) = money s"
  "activeContract (grid_clear s) = activeContract s"
  "completedContracts (grid_clear s) = completedContracts s"
  "stats (grid_clear s) = stats s"
  by (simp_all add: grid_clear_def clear_def emit_def)

lemma emit_fields:
  "grid (emit e s) = grid s"
  "money (emit e s) = money s"
  "activeContract (emit e s) = activeContract s"
  "completedContracts (emit e s) = completedContracts s"
  "stats (emit e s) = stats s"
  "events (emit e s) = events s @ [e]"
  by (simp_all add: emit_def)

lemma addMoney_fields:
  "grid (snd (addMoney a s)) = grid s"
  "activeContract (snd (addMoney a s)) = activeContract s"
  "completedContracts (snd (addMoney a s)) = completedContracts s"
  "money (snd (addMoney a s)) = (if a \<le> 0 then money s else money s + a)"
  by (simp_all add: addMoney_def emit_def Let_def)

lemma completeActiveContract_effect:
  assumes "activeContract s = Some c"
  shows "fst (completeActiveContract s)"
    and "activeContract (snd (completeActiveContract s)) = None"
    and "completedContracts (snd (completeActiveContract s)) = completedContracts s + 1"
    and "cells (grid (snd (completeActiveContract s))) = []"
    and "money (snd (completeActiveContract s)) = (if reward c \<le> 0 then money s else money s + reward c)"
    and "last (events (snd (completeActiveContract s))) = ContractCompleted c"
  using assms
  by (simp_all add: completeActiveContract_def Let_def emit_fields grid_clear_fields addMoney_fields)

lemma checkContractCompletion_cases:
  assumes "activeContract s = Some c"
  shows "checkContractCompletion s =
           (if grid_matches (grid s) (pattern c) then snd (completeActiveContract s) else s)"
  using assms by (simp add: checkContractCompletion_def Let_def check_rows_fst grid_matches_def)

text \<open>
  C1. With an active contract \<open>c\<close>, the completion check completes the contract if and
  only if the grid agrees with the pattern at every coordinate of the grid (by
  \<open>grid_matches_iff\<close>: \<open>getCell\<close> equals the pattern entry, empty where the pattern is
  empty). On completion \<open>completedContracts\<close> grows by one, the active contract becomes
  null, the grid has no stored cell, the reward (never negative for a generated contract)
  is added to money and \<open>contractCompleted\<close> is the last event. With any mismatch, and so
  with a filled cell where the pattern is empty, the check changes nothing and the contract
  stays active.
\<close>

theorem checkContractCompletion_exact:
  assumes "activeContract s = Some c"
  shows "(activeContract (checkContractCompletion s) = None) = grid_matches (grid s) (pattern c)
    \<and> (grid_matches (grid s) (pattern c) \<longrightarrow>
          completedContracts (checkContractCompletion s) = completedContracts s + 1
        \<and> cells (grid (checkContractCompletion s)) = []
        \<and> (0 \<le> reward c \<longrightarrow> money (checkContractCompletion s) = money s + reward c)
        \<and> last (events (checkContractCompletion s)) = ContractCompleted c)
    \<and> (\<not> grid_matches (grid s) (pattern c) \<longrightarrow> checkContractCompletion s = s)
    \<and> (isValid (grid s) x y \<and> pattern_at (pattern c) x y = None \<and> getCell (grid s) x y \<noteq> None
          \<longrightarrow> checkContractCompletion s = s)"
proof -
  have extra: "\<not> grid_matches (grid s) (pattern c)"
    if "isValid (grid s) x y \<and> pattern_at (pattern c) x y = None \<and> getCell (grid s) x y \<noteq> None"
    using that unfolding grid_matches_iff by force
  show ?thesis
    using assms extra
    by (auto simp add: checkContractCompletion_cases [OF assms]
        completeActiveContract_effect [OF assms])
qed

lemma started_state_eq:
  "started_state = GameState\<lparr>activeContract := Some demo_contract,
      events := [ContractStarted demo_contract]\<rparr>"
  by (simp add: started_state_def setActiveContract_def GameState_def grid_clear_def clear_def
      Grid_def emit_def)

lemma two_cells_eq:
  "two_cells = \<lparr>width = 4, height = 4, cells = [((0, 0), ''black''), ((1, 0), ''white'')],
     history = [\<lparr>hx = 0, hy = 0, oldColor = None, newColor = Some ''black''\<rparr>,
                \<lparr>hx = 1, hy = 0, oldColor = None, newColor = Some ''white''\<rparr>]\<rparr>"
  by (simp add: two_cells_def Grid_def isValid_def setCell_def key_def or_null_def store_def
      push_history_def maxHistory_def grid_of_def Let_def)

theorem checkContractCompletion_exact_witness:
  "activeContract matched_state = Some demo_contract
   \<and> grid_matches (grid matched_state) (pattern demo_contract)
   \<and> activeContract (checkContractCompletion matched_state) = None
   \<and> completedContracts (checkContractCompletion matched_state) = 1
   \<and> money (checkContractCompletion matched_state) = 7
   \<and> activeContract extra_state = Some demo_contract
   \<and> isValid (grid extra_state) 2 0 \<and> pattern_at (pattern demo_contract) 2 0 = None
   \<and> getCell (grid extra_state) 2 0 = Some ''red''
   \<and> \<not> grid_matches (grid extra_state) (pattern demo_contract)
   \<and> checkContractCompletion extra_state = extra_state"
proof -
  have a: "activeContract matched_state = Some demo_contract"
    by (simp add: matched_state_def started_state_eq)
  have b: "activeContract extra_state = Some demo_contract"
    by (simp add: extra_state_def started_state_eq)
  have m: "grid_matches (grid matched_state) (pattern demo_contract)"
    by (simp add: matched_state_def two_cells_eq demo_contract_def grid_matches_def
        getCell_def isValid_def key_def or_null_def pattern_at_def upto.simps)
  have v: "isValid (grid extra_state) 2 0 \<and> pattern_at (pattern demo_contract) 2 0 = None
      \<and> getCell (grid extra_state) 2 0 = Some ''red''"
    by (simp add: extra_state_def two_cells_eq demo_contract_def grid_of_def setCell_def
        getCell_def isValid_def key_def or_null_def pattern_at_def store_def Let_def
        push_history_def maxHistory_def)
  have r: "reward demo_contract = 7" "completedContracts matched_state = 0"
    "money matched_state = 0"
    by (simp_all add: demo_contract_def matched_state_def started_state_eq GameState_def)
  from checkContractCompletion_exact [OF a, of 0 0] checkContractCompletion_exact [OF b, of 2 0]
    a b m v r
  show ?thesis by auto
qed

subsection \<open>Loading a saved document\<close>

lemma Grid_deserialize_any: "fst (Grid_deserialize d g) = fst (Grid_deserialize d g')"
  by (simp add: Grid_deserialize_def Let_def)

lemma on_grid_deserialize:
  "snd (on_grid (\<lambda>g. ((), Grid_deserialize sg g)) s) =
     emit (Forwarded GridLoaded) (s\<lparr>grid := fst (Grid_deserialize sg (grid s))\<rparr>)"
  by (simp add: on_grid_def Grid_deserialize_def Let_def grid_listener_def)

lemma deserialize_loads:
  assumes v: "sv_version d \<in> {VNumber 2, VNumber 3, VNumber 4}" and sg: "sv_grid d = Some sg"
  shows "fst (deserialize (Some d) s) = Returned True"
    and "money (snd (deserialize (Some d) s)) = num_or (sv_money d) 0"
    and "grid (snd (deserialize (Some d) s)) = fst (Grid_deserialize sg (grid s))"
proof -
  have d: "deserialize (Some d) s = load_version d s"
    using v by (auto simp add: deserialize_def)
  show "fst (deserialize (Some d) s) = Returned True"
    unfolding d by (simp add: load_version_def Let_def sg)
  show "money (snd (deserialize (Some d) s)) = num_or (sv_money d) 0"
    unfolding d by (simp add: load_version_def Let_def sg load_fields_def emit_def)
  define s1 where "s1 =
    (if num_or (opt_field sg_width (sv_grid d)) 4 \<noteq> width (grid s)
        \<or> num_or (opt_field sg_height (sv_grid d)) 4 \<noteq> height (grid s)
     then snd (on_grid (expand (num_or (opt_field sg_width (sv_grid d)) 4)
                          (num_or (opt_field sg_height (sv_grid d)) 4)) s)
     else s)"
  have "load_version d s =
      (Returned True, load_fields d (snd (on_grid (\<lambda>g. ((), Grid_deserialize sg g)) s1)))"
    unfolding load_version_def Let_def s1_def by (simp add: sg)
  then have "grid (snd (load_version d s)) = fst (Grid_deserialize sg (grid s1))"
    by (simp add: load_fields_def emit_def on_grid_deserialize)
  also have "\<dots> = fst (Grid_deserialize sg (grid s))"
    by (rule Grid_deserialize_any)
  finally show "grid (snd (deserialize (Some d) s)) = fst (Grid_deserialize sg (grid s))"
    unfolding d .
qed

text \<open>
  C6. \<open>deserialize\<close> returns false and leaves the whole state as it is (every field, and no
  event emitted) when the document is missing or its version is anything but the number
  2, 3 or 4, a string such as "4" included. With one of these three versions it goes on
  to load: it returns true and installs the saved grid and fields when the document has a
  grid, and throws when it has none.
\<close>

theorem deserialize_rejects_unsupported:
  "(data = None \<or> (\<exists>d. data = Some d \<and> sv_version d \<notin> {VNumber 2, VNumber 3, VNumber 4})
      \<longrightarrow> deserialize data s = (Returned False, s))
   \<and> (sv_version d \<in> {VNumber 2, VNumber 3, VNumber 4} \<longrightarrow>
        fst (deserialize (Some d) s) = (if sv_grid d = None then Threw else Returned True)
      \<and> (sv_grid d \<noteq> None \<longrightarrow>
            money (snd (deserialize (Some d) s)) = num_or (sv_money d) 0
          \<and> grid (snd (deserialize (Some d) s)) = fst (Grid_deserialize (the (sv_grid d)) (grid s))))"
proof (intro conjI impI)
  assume "data = None \<or> (\<exists>d. data = Some d \<and> sv_version d \<notin> {VNumber 2, VNumber 3, VNumber 4})"
  then show "deserialize data s = (Returned False, s)"
    by (auto simp add: deserialize_def)
next
  assume v: "sv_version d \<in> {VNumber 2, VNumber 3, VNumber 4}"
  show "fst (deserialize (Some d) s) = (if sv_grid d = None then Threw else Returned True)"
  proof (cases "sv_grid d")
    case None
    then show ?thesis using v by (auto simp add: deserialize_def load_version_def Let_def)
  next
    case (Some sg)
    then show ?thesis using deserialize_loads(1) [OF v Some] by simp
  qed
  assume "sv_grid d \<noteq> None"
  then obtain sg where sg: "sv_grid d = Some sg" by auto
  show "money (snd (deserialize (Some d) s)) = num_or (sv_money d) 0"
    by (rule deserialize_loads(2) [OF v sg])
  show "grid (snd (deserialize (Some d) s)) = fst (Grid_deserialize (the (sv_grid d)) (grid s))"
    using deserialize_loads(3) [OF v sg] by (simp add: sg)
qed

theorem deserialize_rejects_unsupported_witness:
  "deserialize None expanded_state = (Returned False, expanded_state)
   \<and> sv_version (small_save\<lparr>sv_version := VNumber 1\<rparr>) \<notin> {VNumber 2, VNumber 3, VNumber 4}
   \<and> deserialize (Some (small_save\<lparr>sv_version := VNumber 1\<rparr>)) expanded_state
       = (Returned False, expanded_state)
   \<and> deserialize (Some (small_save\<lparr>sv_version := VString ''4''\<rparr>)) expanded_state
       = (Returned False, expanded_state)
   \<and> deserialize (Some (small_save\<lparr>sv_version := VMissing\<rparr>)) expanded_state
       = (Returned False, expanded_state)
   \<and> sv_version small_save \<in> {VNumber 2, VNumber 3, VNumber 4}
   \<and> sv_grid small_save \<noteq> None
   \<and> fst (deserialize (Some small_save) expanded_state) = Returned True
   \<and> money (snd (deserialize (Some small_save) expanded_state)) = 12"
  using deserialize_rejects_unsupported [of None expanded_state small_save]
    deserialize_rejects_unsupported
      [of "Some (small_save\<lparr>sv_version := VNumber 1\<rparr>)" expanded_state small_save]
    deserialize_rejects_unsupported
      [of "Some (small_save\<lparr>sv_version := VString ''4''\<rparr>)" expanded_state small_save]
    deserialize_rejects_unsupported
      [of "Some (small_save\<lparr>sv_version := VMissing\<rparr>)" expanded_state small_save]
  by (simp add: small_save_def empty_save_def num_or_def)

subsection \<open>Coordinates in range, dimensions that only grow\<close>

text \<open>
  C4 as stated fails on loading: on a 6 by 6 game, \<open>deserialize\<close> of a well-formed save of a
  4 by 4 game returns true and leaves a 4 by 4 grid (the \<open>expand\<close> it tries first refuses
  to shrink, then \<open>Grid.deserialize\<close> assigns the saved dimensions); and a save with a
  cell at (9, 9) in a 4 by 4 grid is stored as it is.
\<close>

theorem deserialize_shrinks_counterexample:
  "width (grid expanded_state) = 6 \<and> height (grid expanded_state) = 6
   \<and> fst (deserialize (Some small_save) expanded_state) = Returned True
   \<and> width (grid (snd (deserialize (Some small_save) expanded_state))) = 4
   \<and> height (grid (snd (deserialize (Some small_save) expanded_state))) = 4
   \<and> cells (grid (snd (deserialize (Some stray_save) GameState))) = [((9, 9), ''red'')]
   \<and> width (grid (snd (deserialize (Some stray_save) GameState))) = 4"
  by (simp add: expanded_state_def small_save_def stray_save_def empty_save_def GameState_def
      Grid_def deserialize_def load_version_def load_fields_def emit_def Let_def on_grid_def
      Grid_deserialize_def grid_listener_def expand_def num_or_def opt_field_def key_def)

lemma list_all_update:
  "P (k, v) \<Longrightarrow> list_all P cs \<Longrightarrow> list_all P (AList.update k v cs)"
  by (induction cs) auto

lemma list_all_delete: "list_all P cs \<Longrightarrow> list_all P (AList.delete k cs)"
  by (simp add: AList.delete_eq list_all_iff)

lemma list_all_store:
  "(\<And>c. P (k, c)) \<Longrightarrow> list_all P cs \<Longrightarrow> list_all P (store k color cs)"
  by (cases color) (simp_all add: store_def list_all_update list_all_delete)

lemma list_all_push_history: "P e \<Longrightarrow> list_all P h \<Longrightarrow> list_all P (push_history e h)"
  by (cases h) (simp_all add: push_history_def Let_def)

lemma list_all_butlast: "list_all P h \<Longrightarrow> list_all P (butlast h)"
  by (auto simp add: list_all_iff dest: in_set_butlastD)

lemma list_all_drop: "list_all P h \<Longrightarrow> list_all P (drop n h)"
  by (auto simp add: list_all_iff dest: in_set_dropD)

lemma isValid_same_dims:
  "width g' = width g \<Longrightarrow> height g' = height g \<Longrightarrow> isValid g' = isValid g"
  by (simp add: isValid_def fun_eq_iff)

lemma grid_ok_same_dims:
  assumes "width g' = width g" "height g' = height g"
  shows "grid_ok g' =
    (list_all (\<lambda>((x, y), c). isValid g x y) (cells g')
     \<and> list_all (\<lambda>e. isValid g (hx e) (hy e)) (history g'))"
  by (simp add: grid_ok_def cells_in_range_def history_in_range_def isValid_same_dims [OF assms])

lemma grid_ok_D:
  "grid_ok g \<Longrightarrow> list_all (\<lambda>((x, y), c). isValid g x y) (cells g)"
  "grid_ok g \<Longrightarrow> list_all (\<lambda>e. isValid g (hx e) (hy e)) (history g)"
  by (simp_all add: grid_ok_def cells_in_range_def history_in_range_def)

lemma grid_ok_update:
  "list_all (\<lambda>((x, y), c). isValid g x y) cs \<Longrightarrow> list_all (\<lambda>e. isValid g (hx e) (hy e)) h
     \<Longrightarrow> grid_ok (g\<lparr>cells := cs, history := h\<rparr>)"
  by (simp add: grid_ok_def cells_in_range_def history_in_range_def isValid_def)

lemma setCell_dims:
  "width (grid_of (setCell x y c rh g)) = width g"
  "height (grid_of (setCell x y c rh g)) = height g"
  by (simp_all add: setCell_def grid_of_def Let_def)

lemma setCell_ok: "grid_ok g \<Longrightarrow> grid_ok (grid_of (setCell x y c rh g))"
  unfolding grid_ok_same_dims [OF setCell_dims]
  by (auto simp add: setCell_def grid_of_def Let_def key_def grid_ok_D
      intro!: list_all_store list_all_push_history)

lemma setCells_loop_dims:
  "width (fst (setCells_loop changes rh g acc)) = width g
   \<and> height (fst (setCells_loop changes rh g acc)) = height g"
  by (induction changes rh g acc rule: setCells_loop.induct) (simp_all add: Let_def)

lemma setCells_loop_ok:
  "grid_ok g \<Longrightarrow> grid_ok (fst (setCells_loop changes rh g acc))"
proof (induction changes rh g acc rule: setCells_loop.induct)
  case (1 rh g acc)
  then show ?case by simp
next
  case (2 x y color rest rh g acc)
  let ?old = "or_null (map_of (cells g) (key x y))"
  let ?h = "if rh then history g @ [\<lparr>hx = x, hy = y, oldColor = ?old, newColor = color\<rparr>]
            else history g"
  let ?g = "g\<lparr>cells := store (key x y) color (cells g), history := ?h\<rparr>"
  show ?case
  proof (cases "isValid g x y \<and> ?old \<noteq> color")
    case True
    have "grid_ok ?g"
      using True "2.prems"
      by (intro grid_ok_update list_all_store) (auto simp add: key_def grid_ok_D)
    then have "grid_ok (fst (setCells_loop rest rh ?g (acc @ [(x, y, color, ?old)])))"
      using True "2.IH"(3) [of "key x y" ?old ?h] by simp
    then show ?thesis using True by (simp add: Let_def)
  next
    case False
    then show ?thesis using 2 by (auto simp add: Let_def)
  qed
qed

lemma setCells_dims:
  "width (grid_of (setCells changes rh g)) = width g"
  "height (grid_of (setCells changes rh g)) = height g"
  using setCells_loop_dims [of changes rh g "[]"]
  by (auto simp add: setCells_def grid_of_def Let_def split: prod.splits)

lemma setCells_ok: "grid_ok g \<Longrightarrow> grid_ok (grid_of (setCells changes rh g))"
proof -
  assume ok: "grid_ok g"
  obtain g1 ac where l: "setCells_loop changes rh g [] = (g1, ac)"
    by (cases "setCells_loop changes rh g []")
  have g1: "grid_ok g1" using setCells_loop_ok [OF ok, of changes rh "[]"] by (simp add: l)
  have "grid_ok (g1\<lparr>history := drop n (history g1)\<rparr>)" for n
    using g1 by (simp add: grid_ok_same_dims [of "g1\<lparr>history := drop n (history g1)\<rparr>" g1]
        grid_ok_D list_all_drop)
  then show ?thesis using g1 by (simp add: setCells_def grid_of_def Let_def l)
qed

lemma undo_dims:
  "width (grid_of (undo g)) = width g" "height (grid_of (undo g)) = height g"
  by (simp_all add: undo_def grid_of_def Let_def)

lemma undo_ok: "grid_ok g \<Longrightarrow> grid_ok (grid_of (undo g))"
proof (cases "history g = []")
  case True
  assume "grid_ok g"
  then show ?thesis using True by (simp add: undo_def grid_of_def)
next
  case False
  assume ok: "grid_ok g"
  have "isValid g (hx (last (history g))) (hy (last (history g)))"
    using grid_ok_D(2) [OF ok] False by (simp add: list_all_iff)
  then show ?thesis
    unfolding grid_ok_same_dims [OF undo_dims]
    using False ok
    by (auto simp add: undo_def grid_of_def Let_def key_def grid_ok_D
        intro!: list_all_store list_all_butlast)
qed

lemma expand_ok: "grid_ok g \<Longrightarrow> grid_ok (grid_of (expand w h g))"
  by (auto simp add: expand_def grid_of_def grid_ok_def cells_in_range_def history_in_range_def
      isValid_def list_all_iff)

lemma clear_ok: "grid_ok g \<Longrightarrow> grid_ok (fst (clear g))"
  by (simp add: clear_def grid_ok_def cells_in_range_def history_in_range_def)

lemma load_sparse_in_range:
  "list_all (\<lambda>(x, y, c). c = None \<or> P ((x, y), the c)) ts \<Longrightarrow> list_all P cs
     \<Longrightarrow> list_all P (load_sparse ts cs)"
  by (induction ts cs rule: load_sparse.induct)
    (auto simp add: key_def list_all_update split: option.splits)

lemma div_lt_rows:
  assumes "0 < (w::int)" "i < w * h"
  shows "i div w < h"
proof -
  have "0 \<le> i mod w" using assms(1) by simp
  moreover have "w * (i div w) + i mod w = i" by simp
  ultimately have "w * (i div w) < w * h" using assms(2) by linarith
  then show ?thesis using assms(1) by (simp add: mult_less_cancel_left_pos)
qed

lemma load_flat_in_range:
  "0 < w \<Longrightarrow> 0 \<le> i \<Longrightarrow> i + int (length vs) \<le> w * h
     \<Longrightarrow> list_all (\<lambda>((x, y), c). 0 \<le> x \<and> x < w \<and> 0 \<le> y \<and> y < h) cs
     \<Longrightarrow> list_all (\<lambda>((x, y), c). 0 \<le> x \<and> x < w \<and> 0 \<le> y \<and> y < h)
           (load_flat w vs i cs)"
proof (induction w vs i cs rule: load_flat.induct)
  case (1 w i cs)
  then show ?case by simp
next
  case (2 w v rest i cs)
  have "i < w * h" using "2.prems" by simp
  then have r: "0 \<le> js_rem i w \<and> js_rem i w < w \<and> 0 \<le> i div w \<and> i div w < h"
    using "2.prems"(1,2) by (simp add: js_rem_def div_lt_rows pos_imp_zdiv_nonneg_iff)
  have "list_all (\<lambda>((x, y), c). 0 \<le> x \<and> x < w \<and> 0 \<le> y \<and> y < h)
          (case v of None \<Rightarrow> cs | Some c \<Rightarrow> AList.update (key (js_rem i w) (i div w)) c cs)"
    using r "2.prems"(4) by (cases v) (auto simp add: key_def intro!: list_all_update)
  then show ?case
    using "2.IH" "2.prems" by simp
qed

lemma deserialize_ok: "save_in_range d \<Longrightarrow> grid_ok (fst (Grid_deserialize d g))"
proof -
  assume s: "save_in_range d"
  let ?w = "num_or (sg_width d) 4" and ?h = "num_or (sg_height d) 4"
  let ?P = "\<lambda>((x, y), c::string). 0 \<le> x \<and> x < ?w \<and> 0 \<le> y \<and> y < ?h"
  have "list_all ?P (case sg_cells d of NotArray \<Rightarrow> [] | SparseCells ts \<Rightarrow> load_sparse ts []
          | FlatCells vs \<Rightarrow> load_flat ?w vs 0 [])"
  proof (cases "sg_cells d")
    case NotArray
    then show ?thesis by simp
  next
    case (SparseCells ts)
    have "list_all (\<lambda>(x, y, c). c = None \<or> ?P ((x, y), the c)) ts"
      using s by (simp add: save_in_range_def Let_def SparseCells)
    then show ?thesis
      using load_sparse_in_range [of ?P ts "[]"] by (simp add: SparseCells)
  next
    case (FlatCells vs)
    then show ?thesis
      using s load_flat_in_range [of ?w 0 vs ?h "[]"]
      by (simp add: save_in_range_def Let_def)
  qed
  then show ?thesis
    by (simp add: Grid_deserialize_def Let_def grid_ok_def cells_in_range_def
        history_in_range_def isValid_def conj_commute conj_left_commute case_prod_unfold)
qed

lemma apply_op_ok: "op_in_range op \<Longrightarrow> grid_ok g \<Longrightarrow> grid_ok (apply_op op g)"
  by (cases op) (simp_all add: setCell_ok setCells_ok undo_ok expand_ok clear_ok deserialize_ok)

lemma run_ok: "list_all op_in_range ops \<Longrightarrow> grid_ok g \<Longrightarrow> grid_ok (run ops g)"
  unfolding run_def by (induction ops arbitrary: g) (simp_all add: apply_op_ok)

lemma expand_dims:
  "width g \<le> width (grid_of (expand w h g))" "height g \<le> height (grid_of (expand w h g))"
  by (simp_all add: expand_def grid_of_def)

lemma apply_op_dims:
  "\<not> is_deserialize op \<Longrightarrow> width g \<le> width (apply_op op g) \<and> height g \<le> height (apply_op op g)"
  by (cases op) (simp_all add: setCell_dims setCells_dims undo_dims expand_dims clear_def)

text \<open>
  C4 (as amended). In every Grid state reached from a new grid by \<open>setCell\<close>, \<open>setCells\<close>,
  \<open>undo\<close>, \<open>expand\<close>, \<open>clear\<close> and by \<open>deserialize\<close> of saved grids whose cells lie within
  their own saved dimensions, every stored coordinate is in range. None of the first five
  operations ever decreases width or height. \<open>Grid.deserialize\<close> sets width and height to
  the saved values (4 where missing or 0), whatever they were, and
  \<open>GameState.deserialize\<close> of a document with an accepted version and a grid leaves
  exactly that grid.
\<close>

theorem stored_coordinates_in_range:
  "(list_all op_in_range ops \<longrightarrow> cells_in_range (run ops (Grid w h)))
   \<and> (\<not> is_deserialize op \<longrightarrow>
        width g \<le> width (apply_op op g) \<and> height g \<le> height (apply_op op g))
   \<and> width (apply_op (OpDeserialize d) g) = num_or (sg_width d) 4
   \<and> height (apply_op (OpDeserialize d) g) = num_or (sg_height d) 4
   \<and> (sv_version sd \<in> {VNumber 2, VNumber 3, VNumber 4} \<and> sv_grid sd = Some d \<longrightarrow>
        grid (snd (deserialize (Some sd) s)) = apply_op (OpDeserialize d) (grid s))"
proof -
  have "grid_ok (Grid w h)"
    by (simp add: grid_ok_def cells_in_range_def history_in_range_def Grid_def)
  then have "list_all op_in_range ops \<longrightarrow> cells_in_range (run ops (Grid w h))"
    using run_ok [of ops "Grid w h"] by (simp add: grid_ok_def)
  then show ?thesis
    using apply_op_dims [of op g] deserialize_loads(3) [of sd d s]
    by (simp add: Grid_deserialize_def Let_def)
qed

theorem stored_coordinates_in_range_witness:
  "list_all op_in_range demo_ops
   \<and> cells (run demo_ops (Grid 4 4)) = [((1, 1), ''red''), ((0, 0), ''black'')]
   \<and> cells_in_range (run demo_ops (Grid 4 4))
   \<and> \<not> is_deserialize (OpExpand 6 6)
   \<and> width (Grid 4 4) \<le> width (apply_op (OpExpand 6 6) (Grid 4 4))
   \<and> sv_version small_save \<in> {VNumber 2, VNumber 3, VNumber 4}
   \<and> width (grid (snd (deserialize (Some small_save) expanded_state))) = 4"
proof -
  have c: "cells (run demo_ops (Grid 4 4)) = [((1, 1), ''red''), ((0, 0), ''black'')]"
    by (simp add: demo_ops_def run_def Grid_def grid_of_def setCell_def setCells_def undo_def
        expand_def isValid_def key_def or_null_def store_def push_history_def maxHistory_def
        Let_def)
  have o: "list_all op_in_range demo_ops" by (simp add: demo_ops_def)
  have v: "sv_version small_save \<in> {VNumber 2, VNumber 3, VNumber 4}
      \<and> sv_grid small_save = Some \<lparr>sg_width = Some 4, sg_height = Some 4,
            sg_cells = SparseCells [(1, 1, Some ''red'')]\<rparr>"
    by (simp add: small_save_def empty_save_def)
  from stored_coordinates_in_range
      [of demo_ops 4 4 "OpExpand 6 6" "Grid 4 4"
          "\<lparr>sg_width = Some 4, sg_height = Some 4, sg_cells = SparseCells [(1, 1, Some ''red'')]\<rparr>"
          small_save expanded_state]
    c o v
  show ?thesis by (auto simp add: num_or_def Grid_deserialize_def Let_def)
qed

subsection \<open>Rank access\<close>

lemma has_all_iff: "has_all cs unlocked = (set cs \<subseteq> unlocked)"
  by (induction cs) auto

text \<open>
  C7. \<open>canAccessRank\<close> is monotone in the snapshot: for every rank, if the second snapshot has
  at least as many completed contracts, at least as large a grid size (the smaller grid
  dimension) and every colour the first has unlocked, then a rank accessible under the
  first is accessible under the second.
\<close>

theorem canAccessRank_monotone:
  assumes "completed \<le> completed'" and "gridSize \<le> gridSize'" and "unlocked \<subseteq> unlocked'"
    and "canAccessRank r completed gridSize unlocked"
  shows "canAccessRank r completed' gridSize' unlocked'"
  using assms by (auto simp add: canAccessRank_def has_all_iff split: if_splits)

theorem canAccessRank_monotone_witness:
  "(18::int) \<le> 20 \<and> (6::int) \<le> 8
   \<and> {''black'', ''white'', ''red''} \<subseteq> {''black'', ''white'', ''red'', ''blue''}
   \<and> canAccessRank (getRank 4) 18 6 {''black'', ''white'', ''red''}
   \<and> canAccessRank (getRank 4) 20 8 {''black'', ''white'', ''red'', ''blue''}
   \<and> \<not> canAccessRank (getRank 4) 18 6 {''black'', ''white''}"
proof -
  have a: "canAccessRank (getRank 4) 18 6 {''black'', ''white'', ''red''}"
    by (simp add: canAccessRank_def getRank_def RANKS_def)
  have b: "\<not> canAccessRank (getRank 4) 18 6 {''black'', ''white''}"
    by (simp add: canAccessRank_def getRank_def RANKS_def)
  have c: "{''black'', ''white'', ''red''} \<subseteq> {''black'', ''white'', ''red'', ''blue''}"
    by auto
  from canAccessRank_monotone [OF _ _ c a, of 20 8] a b c show ?thesis by simp
qed

subsection \<open>Upgrade cost\<close>

lemma ilog2_bounds:
  assumes "0 < x"
  shows "2 powi (ilog2 x) \<le> x \<and> x < 2 powi (ilog2 x + 1)"
proof -
  obtain p q where pq: "quotient_of x = (p, q)" by (cases "quotient_of x")
  have q: "0 < q" using quotient_of_denom_pos [OF pq] .
  have x: "x = of_int p / of_int q" using quotient_of_div [OF pq] .
  have p: "0 < p" using assms q x by (simp add: zero_less_divide_iff)
  let ?bp = "bitlen p" and ?bq = "bitlen q"
  have bp: "0 \<le> ?bp - 1" "0 \<le> ?bp" and bq: "0 \<le> ?bq - 1" "0 \<le> ?bq"
    using bitlen_bounds [OF p] bitlen_bounds [OF q] p q
    by (auto simp add: bitlen_def floorlog_def)
  have pl: "(2::rat) powi (?bp - 1) \<le> of_int p" and pu: "of_int p < (2::rat) powi ?bp"
    and ql: "(2::rat) powi (?bq - 1) \<le> of_int q" and qu: "of_int q < (2::rat) powi ?bq"
  proof -
    have "(of_int (2 ^ nat (?bp - 1)) :: rat) \<le> of_int p"
      using bitlen_bounds [OF p] by (simp only: of_int_le_iff)
    then show "(2::rat) powi (?bp - 1) \<le> of_int p" using bp by (simp add: power_int_def)
    have "(of_int p :: rat) < of_int (2 ^ nat ?bp)"
      using bitlen_bounds [OF p] by (simp only: of_int_less_iff)
    then show "of_int p < (2::rat) powi ?bp" using bp by (simp add: power_int_def)
    have "(of_int (2 ^ nat (?bq - 1)) :: rat) \<le> of_int q"
      using bitlen_bounds [OF q] by (simp only: of_int_le_iff)
    then show "(2::rat) powi (?bq - 1) \<le> of_int q" using bq by (simp add: power_int_def)
    have "(of_int q :: rat) < of_int (2 ^ nat ?bq)"
      using bitlen_bounds [OF q] by (simp only: of_int_less_iff)
    then show "of_int q < (2::rat) powi ?bq" using bq by (simp add: power_int_def)
  qed
  have up: "x < 2 powi (?bp - ?bq + 1)"
  proof -
    have "of_int p / of_int q < (2::rat) powi ?bp / 2 powi (?bq - 1)"
      using pu ql p by (intro frac_less) simp_all
    also have "\<dots> = 2 powi (?bp - (?bq - 1))" by (simp add: power_int_diff)
    finally show ?thesis by (simp add: x algebra_simps)
  qed
  have lo: "2 powi (?bp - ?bq - 1) < x"
  proof -
    have "(2::rat) powi (?bp - 1) / 2 powi ?bq < of_int p / of_int q"
      using pl qu q by (intro frac_less2) simp_all
    moreover have "(2::rat) powi (?bp - 1) / 2 powi ?bq = 2 powi (?bp - 1 - ?bq)"
      by (simp add: power_int_diff)
    ultimately show ?thesis by (simp add: x algebra_simps)
  qed
  show ?thesis
    using up lo by (auto simp add: ilog2_def pq Let_def)
qed

lemma powi2_less_iff: "(2::rat) powi a < 2 powi b \<longleftrightarrow> a < b"
proof
  assume l: "(2::rat) powi a < 2 powi b"
  show "a < b"
  proof (rule ccontr)
    assume "\<not> a < b"
    then have "(2::rat) powi b \<le> 2 powi a" by (intro power_int_increasing) simp_all
    then show False using l by simp
  qed
next
  assume "a < b"
  then show "(2::rat) powi a < 2 powi b" by (intro power_int_strict_increasing) simp_all
qed

lemma ilog2_unique:
  assumes "0 < x" and "2 powi e \<le> x" and "x < 2 powi (e + 1)"
  shows "ilog2 x = e"
proof -
  from ilog2_bounds [OF assms(1)]
  have a: "2 powi (ilog2 x) \<le> x" and b: "x < 2 powi (ilog2 x + 1)" by simp_all
  have "(2::rat) powi e < 2 powi (ilog2 x + 1)" using assms(2) b by simp
  then have "e < ilog2 x + 1" by (simp only: powi2_less_iff)
  moreover have "(2::rat) powi (ilog2 x) < 2 powi (e + 1)" using a assms(3) by simp
  then have "ilog2 x < e + 1" by (simp only: powi2_less_iff)
  ultimately show ?thesis by simp
qed

lemma round_even_int: "round_even (of_int n) = n"
  by (simp add: round_even_def)

lemma round_even_near:
  assumes "of_int n - 1 / 2 < q" and "q < of_int n + 1 / 2"
  shows "round_even q = n"
proof (cases "of_int n \<le> q")
  case True
  then have "\<lfloor>q\<rfloor> = n" using assms by (intro floor_unique) simp_all
  then show ?thesis using assms by (simp add: round_even_def Let_def)
next
  case False
  then have "\<lfloor>q\<rfloor> = n - 1" using assms by (intro floor_unique) simp_all
  then show ?thesis using assms False by (simp add: round_even_def Let_def)
qed

lemma to_double_eq:
  assumes "0 < x" and "2 powi e \<le> x" and "x < 2 powi (e + 1)" and "- 1022 \<le> e"
    and "round_even (x / 2 powi (e - 52)) = n"
    and "of_int n * 2 powi (e - 52) < (2::rat) powi 1024"
  shows "to_double x = Num (of_int n * 2 powi (e - 52))"
proof -
  have 1: "(x = 0) = False" "\<bar>x\<bar> = x" "(0 < x) = True" using assms(1) by simp_all
  have 2: "max (ilog2 x) (- 1022) = e" using ilog2_unique [OF assms(1-3)] assms(4) by simp
  have 3: "((2::rat) powi 1024 \<le> of_int n * 2 powi (e - 52)) = False"
    using assms(6) by (simp only: linorder_not_le [symmetric])
  show ?thesis
    by (simp only: to_double_def Let_def 1 2 assms(5) 3 if_False if_True)
qed

lemma round_even_le: "q < of_int N \<Longrightarrow> round_even q \<le> N"
proof -
  assume "q < of_int N"
  then have "\<lfloor>q\<rfloor> < N" by (simp add: floor_less_iff)
  then show ?thesis by (simp add: round_even_def Let_def)
qed

lemma to_double_normal:
  assumes "0 < x" and "2 powi e \<le> x" and "x < 2 powi (e + 1)" and "- 1022 \<le> e"
    and "e < 1023" and "round_even (x / 2 powi (e - 52)) = n"
  shows "to_double x = Num (of_int n * 2 powi (e - 52))"
proof -
  define u :: rat where "u = 2 powi (e - 52)"
  have u: "0 < u" unfolding u_def by (rule zero_less_power_int) simp
  have eu: "(2::rat) powi (e + 1) = of_int (2 ^ 53) * u"
    unfolding u_def by (simp add: power_int_diff power_int_add)
  have "x / u < of_int (2 ^ 53)" using assms(3) u by (simp add: eu pos_divide_less_eq)
  then have "n \<le> 2 ^ 53" using round_even_le [of "x / u" "2 ^ 53"] assms(6) by (simp only: u_def)
  then have "(of_int n :: rat) \<le> of_int (2 ^ 53)" by (simp only: of_int_le_iff)
  then have "of_int n * u \<le> of_int (2 ^ 53) * u" using u by (intro mult_right_mono) simp_all
  also have "\<dots> = 2 powi (e + 1)" by (simp only: eu)
  also have "\<dots> < 2 powi 1024" using assms(5) by (intro power_int_strict_increasing) simp_all
  finally have "of_int n * 2 powi (e - 52) < (2::rat) powi 1024" unfolding u_def .
  then show ?thesis by (rule to_double_eq [OF assms(1-4) assms(6)])
qed

lemma to_double_exact:
  assumes "1 \<le> x" and "x * 2 ^ j = of_int n" and "n < 2 ^ 53"
  shows "to_double x = Num x"
proof -
  have x: "0 < x" using assms(1) by simp
  let ?e = "ilog2 x"
  from ilog2_bounds [OF x] have lo: "2 powi ?e \<le> x" and hi: "x < 2 powi (?e + 1)" by simp_all
  have "(2::rat) powi 0 < 2 powi (?e + 1)" using assms(1) hi by simp
  then have "0 < ?e + 1" by (simp only: powi2_less_iff)
  then have e0: "0 \<le> ?e" by simp
  have "(2::rat) powi ?e * 2 ^ j \<le> x * 2 ^ j" using lo by simp
  also have "\<dots> < 2 ^ 53"
  proof -
    have "(of_int n :: rat) < of_int (2 ^ 53)" using assms(3) by (simp only: of_int_less_iff)
    then show ?thesis by (simp add: assms(2))
  qed
  finally have "(2::rat) powi (?e + int j) < 2 powi 53" by (simp add: power_int_add)
  then have ej: "?e + int j < 53" by (simp only: powi2_less_iff)
  define k where "k = nat (52 - ?e - int j)"
  have k: "int k = 52 - ?e - int j" using ej by (simp add: k_def)
  have "x / 2 powi (?e - 52) = x * 2 powi (52 - ?e)"
    by (simp add: power_int_diff divide_simps)
  also have "52 - ?e = int j + int k" using k by simp
  also have "x * (2::rat) powi (int j + int k) = of_int (n * 2 ^ k)"
    using assms(2) by (simp add: power_int_add)
  finally have r: "round_even (x / 2 powi (?e - 52)) = n * 2 ^ k" by (simp only: round_even_int)
  have v: "of_int (n * 2 ^ k) * (2::rat) powi (?e - 52) = x"
  proof -
    have "of_int (n * 2 ^ k) * (2::rat) powi (?e - 52) = x * 2 ^ j * 2 ^ k * 2 powi (?e - 52)"
      using assms(2) by simp
    also have "\<dots> = x * (2 powi (int j) * 2 powi (int k) * 2 powi (?e - 52))" by simp
    also have "\<dots> = x * 2 powi (int j + int k + (?e - 52))" by (simp add: power_int_add)
    also have "int j + int k + (?e - 52) = 0" using k by simp
    finally show ?thesis by simp
  qed
  have "x < 2 powi 1024"
  proof -
    have "x < 2 powi (?e + 1)" by (rule hi)
    also have "\<dots> \<le> 2 powi 1024" using ej by (intro power_int_increasing) simp_all
    finally show ?thesis .
  qed
  then have f6: "of_int (n * 2 ^ k) * (2::rat) powi (?e - 52) < 2 powi 1024" by (simp only: v)
  have f4: "- 1022 \<le> ?e" using e0 by simp
  have "to_double x = Num (of_int (n * 2 ^ k) * 2 powi (?e - 52))"
    by (rule to_double_eq [OF x lo hi f4 r f6])
  then show ?thesis by (simp only: v)
qed

lemma to_double_overflow:
  assumes "2 powi 1024 \<le> x"
  shows "to_double x = PosInfinity"
proof -
  have "(0::rat) < 2 powi 1024" by (rule zero_less_power_int) simp
  then have x: "0 < x" using assms by (rule less_le_trans)
  let ?e = "ilog2 x"
  from ilog2_bounds [OF x] have lo: "2 powi ?e \<le> x" and hi: "x < 2 powi (?e + 1)" by simp_all
  have "(2::rat) powi 1024 < 2 powi (?e + 1)" using assms hi by (rule le_less_trans)
  then have "1024 < ?e + 1" by (simp only: powi2_less_iff)
  then have e: "1024 \<le> ?e" by simp
  define u :: rat where "u = 2 powi (?e - 52)"
  define n where "n = round_even (x / u)"
  have u: "0 < u" unfolding u_def by (rule zero_less_power_int) simp
  have eu: "(2::rat) powi ?e = of_int (2 ^ 52) * u"
    unfolding u_def by (simp add: power_int_diff)
  have "of_int (2 ^ 52) = (2::rat) powi ?e / u" using u by (simp add: eu)
  also have "\<dots> \<le> x / u" using lo u by (simp add: divide_right_mono)
  finally have "2 ^ 52 \<le> \<lfloor>x / u\<rfloor>" by (simp only: le_floor_iff)
  then have "2 ^ 52 \<le> n" by (simp add: n_def round_even_def Let_def)
  then have "(of_int (2 ^ 52) :: rat) \<le> of_int n" by (simp only: of_int_le_iff)
  then have "of_int (2 ^ 52) * u \<le> of_int n * u" using u by (intro mult_right_mono) simp_all
  then have "(2::rat) powi ?e \<le> of_int n * u" by (simp only: eu)
  moreover have "(2::rat) powi 1024 \<le> 2 powi ?e" using e by (intro power_int_increasing) simp_all
  ultimately have "(2::rat) powi 1024 \<le> of_int n * u" by (rule order_trans [rotated])
  then have 3: "((2::rat) powi 1024 \<le> of_int (round_even (x / 2 powi (?e - 52))) * 2 powi (?e - 52)) = True"
    unfolding n_def u_def by (rule eqTrueI)
  have 1: "(x = 0) = False" "\<bar>x\<bar> = x" "(0 < x) = True" using x by simp_all
  have 2: "max ?e (- 1022) = ?e" using e by simp
  show ?thesis
    by (simp only: to_double_def Let_def 1 2 3 if_False if_True)
qed

lemma price_exact:
  assumes b: "b = of_int bi" "1 \<le> bi" and m: "m * 2 = of_int k" "2 \<le> k" "k < 2 ^ 53"
    and l: "L \<le> mx" and s: "bi * k ^ mx < 2 ^ 53"
  shows "price b m L = Num (of_int \<lfloor>b * m ^ L\<rfloor>)"
proof -
  have k0: "0 < k" using m(2) by simp
  have kl: "k ^ L \<le> k ^ mx" using l m(2) by (intro power_increasing) simp_all
  have "1 * k ^ L \<le> bi * k ^ L" using b(2) k0 by (intro mult_right_mono) simp_all
  then have kb: "k ^ L \<le> bi * k ^ L" by simp
  have "bi * k ^ L \<le> bi * k ^ mx" using kl b(2) by (intro mult_left_mono) simp_all
  then have bs: "bi * k ^ L < 2 ^ 53" using s by simp
  then have ks: "k ^ L < 2 ^ 53" using kb by simp
  have "1 \<le> k ^ mx" using k0 by (intro one_le_power) simp
  then have "bi * 1 \<le> bi * k ^ mx" using b(2) by (intro mult_left_mono) simp_all
  then have bi: "bi < 2 ^ 53" using s by simp
  have m1: "1 \<le> m"
  proof -
    have "(of_int 2 :: rat) \<le> of_int k" using m(2) by (simp only: of_int_le_iff)
    then show ?thesis using m(1) by simp
  qed
  have b1: "1 \<le> b" using b by simp
  have p1: "1 \<le> m ^ L" using m1 by simp
  have mp: "m ^ L * 2 ^ L = of_int (k ^ L)"
    using m(1) by (simp add: power_mult_distrib [symmetric])
  have tb: "to_double b = Num b"
    by (rule to_double_exact [of b 0 bi]) (use b b1 bi in simp_all)
  have tm: "to_double m = Num m"
    by (rule to_double_exact [of m 1 k]) (use m m1 in simp_all)
  have tp: "to_double (m ^ L) = Num (m ^ L)"
    by (rule to_double_exact [OF p1 mp ks])
  have "1 * 1 \<le> b * m ^ L" using b1 p1 by (intro mult_mono) simp_all
  then have q1: "1 \<le> b * m ^ L" by simp
  have qp: "b * m ^ L * 2 ^ L = of_int (bi * k ^ L)" using mp b(1) by (simp add: mult.assoc)
  have tq: "to_double (b * m ^ L) = Num (b * m ^ L)"
    by (rule to_double_exact [OF q1 qp bs])
  show ?thesis by (simp add: price_def tb tm tp tq)
qed

lemma price_constant:
  assumes "b = of_int bi" "1 \<le> bi" "bi < 2 ^ 53"
  shows "price b 1 L = Num b"
proof -
  have tb: "to_double b = Num b"
    by (rule to_double_exact [of b 0 bi]) (use assms in simp_all)
  have t1: "to_double 1 = Num 1"
    by (rule to_double_exact [of 1 0 1]) simp_all
  have "\<lfloor>b\<rfloor> = bi" by (simp add: assms(1))
  then have "of_int \<lfloor>b\<rfloor> = b" by (simp add: assms(1))
  then show ?thesis by (simp add: price_def tb t1)
qed

lemma price_overflow:
  assumes "b = of_int bi" "1 \<le> bi" "bi < 2 ^ 53" and "1024 \<le> L"
  shows "price b 2 L = PosInfinity"
proof -
  have tb: "to_double b = Num b"
    by (rule to_double_exact [of b 0 bi]) (use assms in simp_all)
  have tm: "to_double 2 = Num 2"
    by (rule to_double_exact [of 2 0 2]) simp_all
  have "(2::rat) powi 1024 \<le> 2 powi int L"
    using assms(4) by (intro power_int_increasing) simp_all
  then have "(2::rat) powi 1024 \<le> 2 ^ L" by (simp only: power_int_of_nat)
  then have tp: "to_double (2 ^ L) = PosInfinity" by (rule to_double_overflow)
  have "0 < b" using assms(1,2) by simp
  then show ?thesis by (simp add: price_def tb tm tp)
qed

lemma double_1: "to_double 1 = Num 1"
  using to_double_exact [of 1 0 1] by simp

lemma double_500: "to_double 500 = Num 500"
  using to_double_exact [of 500 0 500] by simp

lemma double_22_10: "to_double (22 / 10) = Num (2476979795053773 / 1125899906842624)"
proof -
  have x: "(22 / 10 :: rat) = 11 / 5" by (simp add: power_divide)
  have r: "round_even (11 / 5 / 2 powi (1 - 52)) = 4953959590107546"
    by (rule round_even_near) simp_all
  have "to_double (11 / 5) = Num (of_int 4953959590107546 * 2 powi (1 - 52))"
    by (rule to_double_normal [OF _ _ _ _ _ r]) simp_all
  then show ?thesis by (simp add: x)
qed

lemma double_md: "to_double (2476979795053773 / 1125899906842624) = Num (2476979795053773 / 1125899906842624)"
  using to_double_exact [of "2476979795053773 / 1125899906842624" 50 2476979795053773] by simp

lemma sb_pow_0: "to_double ((2476979795053773 / 1125899906842624) ^ 0) = Num 1"
  by (simp add: double_1)

lemma sb_pow_1: "to_double ((2476979795053773 / 1125899906842624) ^ 1) = Num (2476979795053773 / 1125899906842624)"
  by (simp add: double_md)

lemma sb_mul_0: "to_double (500 * 1) = Num 500"
  by (simp add: double_500)

lemma sb_price_0: "price 500 (22 / 10) 0 = Num 500"
proof -
  have p: "js_pow (Num (2476979795053773 / 1125899906842624)) 0 = Num (1)"
    unfolding js_pow.simps by (rule sb_pow_0)
  have m: "js_mul (Num 500) (Num (1)) = Num (500)"
    unfolding js_mul.simps by (rule sb_mul_0)
  have "\<lfloor>500 :: rat\<rfloor> = 500" by (rule floor_unique) (simp_all add: power_divide)
  then have f: "js_floor (Num (500)) = Num 500" by simp
  show ?thesis by (simp only: price_def double_500 double_22_10 p m f)
qed

lemma sb_exact_0: "\<lfloor>500 * (22 / 10 :: rat) ^ 0\<rfloor> = 500"
  by (rule floor_unique) (simp_all add: power_divide)

lemma sb_mul_1: "to_double (500 * (2476979795053773 / 1125899906842624)) = Num (1100)"
proof -
  have x: "(500 * (2476979795053773 / 1125899906842624) :: rat) = 309622474381721625 / 281474976710656" by (simp add: power_divide)
  have r: "round_even (309622474381721625 / 281474976710656 / 2 powi (10 - 52)) = 4837851162214400"
    by (rule round_even_near) simp_all
  have "to_double (309622474381721625 / 281474976710656) = Num (of_int 4837851162214400 * 2 powi (10 - 52))"
    by (rule to_double_normal [OF _ _ _ _ _ r]) simp_all
  then show ?thesis by (simp add: x)
qed

lemma sb_price_1: "price 500 (22 / 10) 1 = Num 1100"
proof -
  have p: "js_pow (Num (2476979795053773 / 1125899906842624)) 1 = Num (2476979795053773 / 1125899906842624)"
    unfolding js_pow.simps by (rule sb_pow_1)
  have m: "js_mul (Num 500) (Num (2476979795053773 / 1125899906842624)) = Num (1100)"
    unfolding js_mul.simps by (rule sb_mul_1)
  have "\<lfloor>1100 :: rat\<rfloor> = 1100" by (rule floor_unique) (simp_all add: power_divide)
  then have f: "js_floor (Num (1100)) = Num 1100" by simp
  show ?thesis by (simp only: price_def double_500 double_22_10 p m f)
qed

lemma sb_exact_1: "\<lfloor>500 * (22 / 10 :: rat) ^ 1\<rfloor> = 1100"
  by (rule floor_unique) (simp_all add: power_divide)

lemma sb_pow_2: "to_double ((2476979795053773 / 1125899906842624) ^ 2) = Num (5449355549118301 / 1125899906842624)"
proof -
  have x: "((2476979795053773 / 1125899906842624) ^ 2 :: rat) = 6135428905104631294035961535529 / 1267650600228229401496703205376" by (simp add: power_divide)
  have r: "round_even (6135428905104631294035961535529 / 1267650600228229401496703205376 / 2 powi (2 - 52)) = 5449355549118301"
    by (rule round_even_near) simp_all
  have "to_double (6135428905104631294035961535529 / 1267650600228229401496703205376) = Num (of_int 5449355549118301 * 2 powi (2 - 52))"
    by (rule to_double_normal [OF _ _ _ _ _ r]) simp_all
  then show ?thesis by (simp add: x)
qed

lemma sb_mul_2: "to_double (500 * (5449355549118301 / 1125899906842624)) = Num (5321636278435841 / 2199023255552)"
proof -
  have x: "(500 * (5449355549118301 / 1125899906842624) :: rat) = 681169443639787625 / 281474976710656" by (simp add: power_divide)
  have r: "round_even (681169443639787625 / 281474976710656 / 2 powi (11 - 52)) = 5321636278435841"
    by (rule round_even_near) simp_all
  have "to_double (681169443639787625 / 281474976710656) = Num (of_int 5321636278435841 * 2 powi (11 - 52))"
    by (rule to_double_normal [OF _ _ _ _ _ r]) simp_all
  then show ?thesis by (simp add: x)
qed

lemma sb_price_2: "price 500 (22 / 10) 2 = Num 2420"
proof -
  have p: "js_pow (Num (2476979795053773 / 1125899906842624)) 2 = Num (5449355549118301 / 1125899906842624)"
    unfolding js_pow.simps by (rule sb_pow_2)
  have m: "js_mul (Num 500) (Num (5449355549118301 / 1125899906842624)) = Num (5321636278435841 / 2199023255552)"
    unfolding js_mul.simps by (rule sb_mul_2)
  have "\<lfloor>5321636278435841 / 2199023255552 :: rat\<rfloor> = 2420" by (rule floor_unique) (simp_all add: power_divide)
  then have f: "js_floor (Num (5321636278435841 / 2199023255552)) = Num 2420" by simp
  show ?thesis by (simp only: price_def double_500 double_22_10 p m f)
qed

lemma sb_exact_2: "\<lfloor>500 * (22 / 10 :: rat) ^ 2\<rfloor> = 2420"
  by (rule floor_unique) (simp_all add: power_divide)

lemma sb_pow_3: "to_double ((2476979795053773 / 1125899906842624) ^ 3) = Num (1498572776007533 / 140737488355328)"
proof -
  have x: "((2476979795053773 / 1125899906842624) ^ 3 :: rat) = 15197333431933064494765972065476703396205000917 / 1427247692705959881058285969449495136382746624" by (simp add: power_divide)
  have r: "round_even (15197333431933064494765972065476703396205000917 / 1427247692705959881058285969449495136382746624 / 2 powi (3 - 52)) = 5994291104030132"
    by (rule round_even_near) simp_all
  have "to_double (15197333431933064494765972065476703396205000917 / 1427247692705959881058285969449495136382746624) = Num (of_int 5994291104030132 * 2 powi (3 - 52))"
    by (rule to_double_normal [OF _ _ _ _ _ r]) simp_all
  then show ?thesis by (simp add: x)
qed

lemma sb_mul_3: "to_double (500 * (1498572776007533 / 140737488355328)) = Num (2926899953139713 / 549755813888)"
proof -
  have x: "(500 * (1498572776007533 / 140737488355328) :: rat) = 187321597000941625 / 35184372088832" by (simp add: power_divide)
  have r: "round_even (187321597000941625 / 35184372088832 / 2 powi (12 - 52)) = 5853799906279426"
    by (rule round_even_near) simp_all
  have "to_double (187321597000941625 / 35184372088832) = Num (of_int 5853799906279426 * 2 powi (12 - 52))"
    by (rule to_double_normal [OF _ _ _ _ _ r]) simp_all
  then show ?thesis by (simp add: x)
qed

lemma sb_price_3: "price 500 (22 / 10) 3 = Num 5324"
proof -
  have p: "js_pow (Num (2476979795053773 / 1125899906842624)) 3 = Num (1498572776007533 / 140737488355328)"
    unfolding js_pow.simps by (rule sb_pow_3)
  have m: "js_mul (Num 500) (Num (1498572776007533 / 140737488355328)) = Num (2926899953139713 / 549755813888)"
    unfolding js_mul.simps by (rule sb_mul_3)
  have "\<lfloor>2926899953139713 / 549755813888 :: rat\<rfloor> = 5324" by (rule floor_unique) (simp_all add: power_divide)
  then have f: "js_floor (Num (2926899953139713 / 549755813888)) = Num 5324" by simp
  show ?thesis by (simp only: price_def double_500 double_22_10 p m f)
qed

lemma sb_exact_3: "\<lfloor>500 * (22 / 10 :: rat) ^ 3\<rfloor> = 5324"
  by (rule floor_unique) (simp_all add: power_divide)

lemma sb_pow_4: "to_double ((2476979795053773 / 1125899906842624) ^ 4) = Num (6593720214433145 / 281474976710656)"
proof -
  have x: "((2476979795053773 / 1125899906842624) ^ 4 :: rat) = 37643487849593414756602532736797261971484545721089603529309841 / 1606938044258990275541962092341162602522202993782792835301376" by (simp add: power_divide)
  have r: "round_even (37643487849593414756602532736797261971484545721089603529309841 / 1606938044258990275541962092341162602522202993782792835301376 / 2 powi (4 - 52)) = 6593720214433145"
    by (rule round_even_near) simp_all
  have "to_double (37643487849593414756602532736797261971484545721089603529309841 / 1606938044258990275541962092341162602522202993782792835301376) = Num (of_int 6593720214433145 * 2 powi (4 - 52))"
    by (rule to_double_normal [OF _ _ _ _ _ r]) simp_all
  then show ?thesis by (simp add: x)
qed

lemma sb_mul_4: "to_double (500 * (6593720214433145 / 281474976710656)) = Num (804897487113421 / 68719476736)"
proof -
  have x: "(500 * (6593720214433145 / 281474976710656) :: rat) = 824215026804143125 / 70368744177664" by (simp add: power_divide)
  have r: "round_even (824215026804143125 / 70368744177664 / 2 powi (13 - 52)) = 6439179896907368"
    by (rule round_even_near) simp_all
  have "to_double (824215026804143125 / 70368744177664) = Num (of_int 6439179896907368 * 2 powi (13 - 52))"
    by (rule to_double_normal [OF _ _ _ _ _ r]) simp_all
  then show ?thesis by (simp add: x)
qed

lemma sb_price_4: "price 500 (22 / 10) 4 = Num 11712"
proof -
  have p: "js_pow (Num (2476979795053773 / 1125899906842624)) 4 = Num (6593720214433145 / 281474976710656)"
    unfolding js_pow.simps by (rule sb_pow_4)
  have m: "js_mul (Num 500) (Num (6593720214433145 / 281474976710656)) = Num (804897487113421 / 68719476736)"
    unfolding js_mul.simps by (rule sb_mul_4)
  have "\<lfloor>804897487113421 / 68719476736 :: rat\<rfloor> = 11712" by (rule floor_unique) (simp_all add: power_divide)
  then have f: "js_floor (Num (804897487113421 / 68719476736)) = Num 11712" by simp
  show ?thesis by (simp only: price_def double_500 double_22_10 p m f)
qed

lemma sb_exact_4: "\<lfloor>500 * (22 / 10 :: rat) ^ 4\<rfloor> = 11712"
  by (rule floor_unique) (simp_all add: power_divide)

lemma sb_pow_5: "to_double ((2476979795053773 / 1125899906842624) ^ 5) = Num (1813273058969115 / 35184372088832)"
proof -
  have x: "((2476979795053773 / 1125899906842624) ^ 5 :: rat) = 93242158818795090589295503126579658907544885073885291803721317702244173080093 / 1809251394333065553493296640760748560207343510400633813116524750123642650624" by (simp add: power_divide)
  have r: "round_even (93242158818795090589295503126579658907544885073885291803721317702244173080093 / 1809251394333065553493296640760748560207343510400633813116524750123642650624 / 2 powi (5 - 52)) = 7253092235876460"
    by (rule round_even_near) simp_all
  have "to_double (93242158818795090589295503126579658907544885073885291803721317702244173080093 / 1809251394333065553493296640760748560207343510400633813116524750123642650624) = Num (of_int 7253092235876460 * 2 powi (5 - 52))"
    by (rule to_double_normal [OF _ _ _ _ _ r]) simp_all
  then show ?thesis by (simp add: x)
qed

lemma sb_mul_5: "to_double (500 * (1813273058969115 / 35184372088832)) = Num (7083097886598105 / 274877906944)"
proof -
  have x: "(500 * (1813273058969115 / 35184372088832) :: rat) = 226659132371139375 / 8796093022208" by (simp add: power_divide)
  have r: "round_even (226659132371139375 / 8796093022208 / 2 powi (14 - 52)) = 7083097886598105"
    by (rule round_even_near) simp_all
  have "to_double (226659132371139375 / 8796093022208) = Num (of_int 7083097886598105 * 2 powi (14 - 52))"
    by (rule to_double_normal [OF _ _ _ _ _ r]) simp_all
  then show ?thesis by (simp add: x)
qed

lemma sb_price_5: "price 500 (22 / 10) 5 = Num 25768"
proof -
  have p: "js_pow (Num (2476979795053773 / 1125899906842624)) 5 = Num (1813273058969115 / 35184372088832)"
    unfolding js_pow.simps by (rule sb_pow_5)
  have m: "js_mul (Num 500) (Num (1813273058969115 / 35184372088832)) = Num (7083097886598105 / 274877906944)"
    unfolding js_mul.simps by (rule sb_mul_5)
  have "\<lfloor>7083097886598105 / 274877906944 :: rat\<rfloor> = 25768" by (rule floor_unique) (simp_all add: power_divide)
  then have f: "js_floor (Num (7083097886598105 / 274877906944)) = Num 25768" by simp
  show ?thesis by (simp only: price_def double_500 double_22_10 p m f)
qed

lemma sb_exact_5: "\<lfloor>500 * (22 / 10 :: rat) ^ 5\<rfloor> = 25768"
  by (rule floor_unique) (simp_all add: power_divide)

lemma sb_pow_6: "to_double ((2476979795053773 / 1125899906842624) ^ 6) = Num (7978401459464107 / 70368744177664)"
proof -
  have x: "((2476979795053773 / 1125899906842624) ^ 6 :: rat) = 230958943441350416241042672935155329661606021382046361050574843555396149292676053639970840889 / 2037035976334486086268445688409378161051468393665936250636140449354381299763336706183397376" by (simp add: power_divide)
  have r: "round_even (230958943441350416241042672935155329661606021382046361050574843555396149292676053639970840889 / 2037035976334486086268445688409378161051468393665936250636140449354381299763336706183397376 / 2 powi (6 - 52)) = 7978401459464107"
    by (rule round_even_near) simp_all
  have "to_double (230958943441350416241042672935155329661606021382046361050574843555396149292676053639970840889 / 2037035976334486086268445688409378161051468393665936250636140449354381299763336706183397376) = Num (of_int 7978401459464107 * 2 powi (6 - 52))"
    by (rule to_double_normal [OF _ _ _ _ _ r]) simp_all
  then show ?thesis by (simp add: x)
qed

lemma sb_mul_6: "to_double (500 * (7978401459464107 / 70368744177664)) = Num (7791407675257917 / 137438953472)"
proof -
  have x: "(500 * (7978401459464107 / 70368744177664) :: rat) = 997300182433013375 / 17592186044416" by (simp add: power_divide)
  have r: "round_even (997300182433013375 / 17592186044416 / 2 powi (15 - 52)) = 7791407675257917"
    by (rule round_even_near) simp_all
  have "to_double (997300182433013375 / 17592186044416) = Num (of_int 7791407675257917 * 2 powi (15 - 52))"
    by (rule to_double_normal [OF _ _ _ _ _ r]) simp_all
  then show ?thesis by (simp add: x)
qed

lemma sb_price_6: "price 500 (22 / 10) 6 = Num 56689"
proof -
  have p: "js_pow (Num (2476979795053773 / 1125899906842624)) 6 = Num (7978401459464107 / 70368744177664)"
    unfolding js_pow.simps by (rule sb_pow_6)
  have m: "js_mul (Num 500) (Num (7978401459464107 / 70368744177664)) = Num (7791407675257917 / 137438953472)"
    unfolding js_mul.simps by (rule sb_mul_6)
  have "\<lfloor>7791407675257917 / 137438953472 :: rat\<rfloor> = 56689" by (rule floor_unique) (simp_all add: power_divide)
  then have f: "js_floor (Num (7791407675257917 / 137438953472)) = Num 56689" by simp
  show ?thesis by (simp only: price_def double_500 double_22_10 p m f)
qed

lemma sb_exact_6: "\<lfloor>500 * (22 / 10 :: rat) ^ 6\<rfloor> = 56689"
  by (rule floor_unique) (simp_all add: power_divide)

lemma sb_pow_7: "to_double ((2476979795053773 / 1125899906842624) ^ 7) = Num (8776241605410519 / 35184372088832)"
proof -
  have x: "((2476979795053773 / 1125899906842624) ^ 7 :: rat) = 572080636391192103809574286525702684410104409755560352663325639594774786081266443482459046703594989782124197 / 2293498615990071511610820895302086940796564989168281123737588839386922876088484808070018553110125686554624" by (simp add: power_divide)
  have r: "round_even (572080636391192103809574286525702684410104409755560352663325639594774786081266443482459046703594989782124197 / 2293498615990071511610820895302086940796564989168281123737588839386922876088484808070018553110125686554624 / 2 powi (7 - 52)) = 8776241605410519"
    by (rule round_even_near) simp_all
  have "to_double (572080636391192103809574286525702684410104409755560352663325639594774786081266443482459046703594989782124197 / 2293498615990071511610820895302086940796564989168281123737588839386922876088484808070018553110125686554624) = Num (of_int 8776241605410519 * 2 powi (7 - 52))"
    by (rule to_double_normal [OF _ _ _ _ _ r]) simp_all
  then show ?thesis by (simp add: x)
qed

lemma sb_mul_7: "to_double (500 * (8776241605410519 / 35184372088832)) = Num (4285274221391855 / 34359738368)"
proof -
  have x: "(500 * (8776241605410519 / 35184372088832) :: rat) = 1097030200676314875 / 8796093022208" by (simp add: power_divide)
  have r: "round_even (1097030200676314875 / 8796093022208 / 2 powi (16 - 52)) = 8570548442783710"
    by (rule round_even_near) simp_all
  have "to_double (1097030200676314875 / 8796093022208) = Num (of_int 8570548442783710 * 2 powi (16 - 52))"
    by (rule to_double_normal [OF _ _ _ _ _ r]) simp_all
  then show ?thesis by (simp add: x)
qed

lemma sb_price_7: "price 500 (22 / 10) 7 = Num 124717"
proof -
  have p: "js_pow (Num (2476979795053773 / 1125899906842624)) 7 = Num (8776241605410519 / 35184372088832)"
    unfolding js_pow.simps by (rule sb_pow_7)
  have m: "js_mul (Num 500) (Num (8776241605410519 / 35184372088832)) = Num (4285274221391855 / 34359738368)"
    unfolding js_mul.simps by (rule sb_mul_7)
  have "\<lfloor>4285274221391855 / 34359738368 :: rat\<rfloor> = 124717" by (rule floor_unique) (simp_all add: power_divide)
  then have f: "js_floor (Num (4285274221391855 / 34359738368)) = Num 124717" by simp
  show ?thesis by (simp only: price_def double_500 double_22_10 p m f)
qed

lemma sb_exact_7: "\<lfloor>500 * (22 / 10 :: rat) ^ 7\<rfloor> = 124717"
  by (rule floor_unique) (simp_all add: power_divide)

lemma sb_pow_8: "to_double ((2476979795053773 / 1125899906842624) ^ 8) = Num (2413466441487893 / 4398046511104)"
proof -
  have x: "((2476979795053773 / 1125899906842624) ^ 8 :: rat) = 1417032177482487049160521608273858535570436727253708426875917793625474142316674033089508436065148413871945501535153779445281 / 2582249878086908589655919172003011874329705792829223512830659356540647622016841194629645353280137831435903171972747493376" by (simp add: power_divide)
  have r: "round_even (1417032177482487049160521608273858535570436727253708426875917793625474142316674033089508436065148413871945501535153779445281 / 2582249878086908589655919172003011874329705792829223512830659356540647622016841194629645353280137831435903171972747493376 / 2 powi (9 - 52)) = 4826932882975786"
    by (rule round_even_near) simp_all
  have "to_double (1417032177482487049160521608273858535570436727253708426875917793625474142316674033089508436065148413871945501535153779445281 / 2582249878086908589655919172003011874329705792829223512830659356540647622016841194629645353280137831435903171972747493376) = Num (of_int 4826932882975786 * 2 powi (9 - 52))"
    by (rule to_double_normal [OF _ _ _ _ _ r]) simp_all
  then show ?thesis by (simp add: x)
qed

lemma sb_mul_8: "to_double (500 * (2413466441487893 / 4398046511104)) = Num (4713801643531041 / 17179869184)"
proof -
  have x: "(500 * (2413466441487893 / 4398046511104) :: rat) = 301683305185986625 / 1099511627776" by (simp add: power_divide)
  have r: "round_even (301683305185986625 / 1099511627776 / 2 powi (18 - 52)) = 4713801643531041"
    by (rule round_even_near) simp_all
  have "to_double (301683305185986625 / 1099511627776) = Num (of_int 4713801643531041 * 2 powi (18 - 52))"
    by (rule to_double_normal [OF _ _ _ _ _ r]) simp_all
  then show ?thesis by (simp add: x)
qed

lemma sb_price_8: "price 500 (22 / 10) 8 = Num 274379"
proof -
  have p: "js_pow (Num (2476979795053773 / 1125899906842624)) 8 = Num (2413466441487893 / 4398046511104)"
    unfolding js_pow.simps by (rule sb_pow_8)
  have m: "js_mul (Num 500) (Num (2413466441487893 / 4398046511104)) = Num (4713801643531041 / 17179869184)"
    unfolding js_mul.simps by (rule sb_mul_8)
  have "\<lfloor>4713801643531041 / 17179869184 :: rat\<rfloor> = 274379" by (rule floor_unique) (simp_all add: power_divide)
  then have f: "js_floor (Num (4713801643531041 / 17179869184)) = Num 274379" by simp
  show ?thesis by (simp only: price_def double_500 double_22_10 p m f)
qed

lemma sb_exact_8: "\<lfloor>500 * (22 / 10 :: rat) ^ 8\<rfloor> = 274379"
  by (rule floor_unique) (simp_all add: power_divide)

lemma sb_pow_9: "to_double ((2476979795053773 / 1125899906842624) ^ 9) = Num (5309626171273365 / 4398046511104)"
proof -
  have x: "((2476979795053773 / 1125899906842624) ^ 9 :: rat) = 3509960072565172458399549511449761147737970767766590706327497010129677975329978692618668335396744061969637950302853519357897169279506095213 / 2907354897182427562197295231552018137414565442749272241125960796722557152453591693304764202855054262243050086425064711734138406514458624" by (simp add: power_divide)
  have r: "round_even (3509960072565172458399549511449761147737970767766590706327497010129677975329978692618668335396744061969637950302853519357897169279506095213 / 2907354897182427562197295231552018137414565442749272241125960796722557152453591693304764202855054262243050086425064711734138406514458624 / 2 powi (10 - 52)) = 5309626171273365"
    by (rule round_even_near) simp_all
  have "to_double (3509960072565172458399549511449761147737970767766590706327497010129677975329978692618668335396744061969637950302853519357897169279506095213 / 2907354897182427562197295231552018137414565442749272241125960796722557152453591693304764202855054262243050086425064711734138406514458624) = Num (of_int 5309626171273365 * 2 powi (10 - 52))"
    by (rule to_double_normal [OF _ _ _ _ _ r]) simp_all
  then show ?thesis by (simp add: x)
qed

lemma sb_mul_9: "to_double (500 * (5309626171273365 / 4398046511104)) = Num (2592590903942073 / 4294967296)"
proof -
  have x: "(500 * (5309626171273365 / 4398046511104) :: rat) = 663703271409170625 / 1099511627776" by (simp add: power_divide)
  have r: "round_even (663703271409170625 / 1099511627776 / 2 powi (19 - 52)) = 5185181807884146"
    by (rule round_even_near) simp_all
  have "to_double (663703271409170625 / 1099511627776) = Num (of_int 5185181807884146 * 2 powi (19 - 52))"
    by (rule to_double_normal [OF _ _ _ _ _ r]) simp_all
  then show ?thesis by (simp add: x)
qed

lemma sb_price_9: "price 500 (22 / 10) 9 = Num 603634"
proof -
  have p: "js_pow (Num (2476979795053773 / 1125899906842624)) 9 = Num (5309626171273365 / 4398046511104)"
    unfolding js_pow.simps by (rule sb_pow_9)
  have m: "js_mul (Num 500) (Num (5309626171273365 / 4398046511104)) = Num (2592590903942073 / 4294967296)"
    unfolding js_mul.simps by (rule sb_mul_9)
  have "\<lfloor>2592590903942073 / 4294967296 :: rat\<rfloor> = 603634" by (rule floor_unique) (simp_all add: power_divide)
  then have f: "js_floor (Num (2592590903942073 / 4294967296)) = Num 603634" by simp
  show ?thesis by (simp only: price_def double_500 double_22_10 p m f)
qed

lemma sb_exact_9: "\<lfloor>500 * (22 / 10 :: rat) ^ 9\<rfloor> = 603634"
  by (rule floor_unique) (simp_all add: power_divide)

lemma sb_pow_10: "to_double ((2476979795053773 / 1125899906842624) ^ 10) = Num (2920294394200351 / 1099511627776)"
proof -
  have x: "((2476979795053773 / 1125899906842624) ^ 10 :: rat) = 8694100181189407083128209195568698496402151552255796357703101629065471171474568853164376050822202002684310224809675639795788004289463509905614102592888649 / 3273390607896141870013189696827599152216642046043064789483291368096133796404674554883270092325904157150886684127560071009217256545885393053328527589376" by (simp add: power_divide)
  have r: "round_even (8694100181189407083128209195568698496402151552255796357703101629065471171474568853164376050822202002684310224809675639795788004289463509905614102592888649 / 3273390607896141870013189696827599152216642046043064789483291368096133796404674554883270092325904157150886684127560071009217256545885393053328527589376 / 2 powi (11 - 52)) = 5840588788400702"
    by (rule round_even_near) simp_all
  have "to_double (8694100181189407083128209195568698496402151552255796357703101629065471171474568853164376050822202002684310224809675639795788004289463509905614102592888649 / 3273390607896141870013189696827599152216642046043064789483291368096133796404674554883270092325904157150886684127560071009217256545885393053328527589376) = Num (of_int 5840588788400702 * 2 powi (11 - 52))"
    by (rule to_double_normal [OF _ _ _ _ _ r]) simp_all
  then show ?thesis by (simp add: x)
qed

lemma sb_mul_10: "to_double (500 * (2920294394200351 / 1099511627776)) = Num (5703699988672561 / 4294967296)"
proof -
  have x: "(500 * (2920294394200351 / 1099511627776) :: rat) = 365036799275043875 / 274877906944" by (simp add: power_divide)
  have r: "round_even (365036799275043875 / 274877906944 / 2 powi (20 - 52)) = 5703699988672561"
    by (rule round_even_near) simp_all
  have "to_double (365036799275043875 / 274877906944) = Num (of_int 5703699988672561 * 2 powi (20 - 52))"
    by (rule to_double_normal [OF _ _ _ _ _ r]) simp_all
  then show ?thesis by (simp add: x)
qed

lemma sb_price_10: "price 500 (22 / 10) 10 = Num 1327996"
proof -
  have p: "js_pow (Num (2476979795053773 / 1125899906842624)) 10 = Num (2920294394200351 / 1099511627776)"
    unfolding js_pow.simps by (rule sb_pow_10)
  have m: "js_mul (Num 500) (Num (2920294394200351 / 1099511627776)) = Num (5703699988672561 / 4294967296)"
    unfolding js_mul.simps by (rule sb_mul_10)
  have "\<lfloor>5703699988672561 / 4294967296 :: rat\<rfloor> = 1327996" by (rule floor_unique) (simp_all add: power_divide)
  then have f: "js_floor (Num (5703699988672561 / 4294967296)) = Num 1327996" by simp
  show ?thesis by (simp only: price_def double_500 double_22_10 p m f)
qed

lemma sb_exact_10: "\<lfloor>500 * (22 / 10 :: rat) ^ 10\<rfloor> = 1327996"
  by (rule floor_unique) (simp_all add: power_divide)

lemma sb_pow_33: "to_double ((2476979795053773 / 1125899906842624) ^ 33) = Num (6537299799439327 / 32768)"
proof -
  have x: "((2476979795053773 / 1125899906842624) ^ 33 :: rat) = 9987144020454677968157000195713185162399795252037060973222487374059465092719916834457277952357325149146400678793914720668146361012423548216491177237038113940509553954881943099464556701797886677395135676480397908645939038763741875417438689722210047697064980363540048138710940689390114920231902955288216865600509652512802366922006120468997224373329589112568778847763968239284200639893458717413062684670777006852908005306160428234679354837234771432979930188116018464018676796744940726588250418133480490632102733 / 50060230569558135212431628928682526259691134039460815810331716074629761771557983390553818374167023440260324632212760613697929558751778013854201042351643901275191155815322032647169449125057132011174703395922737443048896632527613416545276681598247097983334656149637794735001607176471416597954362144309433769755744215523467898829493072622084478202646418184630056606675288227247150356732873355000701668655288707824182302925356048201426039442593915862206757472935450273141443127305575402191617601306624" by (simp add: power_divide)
  have r: "round_even (9987144020454677968157000195713185162399795252037060973222487374059465092719916834457277952357325149146400678793914720668146361012423548216491177237038113940509553954881943099464556701797886677395135676480397908645939038763741875417438689722210047697064980363540048138710940689390114920231902955288216865600509652512802366922006120468997224373329589112568778847763968239284200639893458717413062684670777006852908005306160428234679354837234771432979930188116018464018676796744940726588250418133480490632102733 / 50060230569558135212431628928682526259691134039460815810331716074629761771557983390553818374167023440260324632212760613697929558751778013854201042351643901275191155815322032647169449125057132011174703395922737443048896632527613416545276681598247097983334656149637794735001607176471416597954362144309433769755744215523467898829493072622084478202646418184630056606675288227247150356732873355000701668655288707824182302925356048201426039442593915862206757472935450273141443127305575402191617601306624 / 2 powi (37 - 52)) = 6537299799439327"
    by (rule round_even_near) simp_all
  have "to_double (9987144020454677968157000195713185162399795252037060973222487374059465092719916834457277952357325149146400678793914720668146361012423548216491177237038113940509553954881943099464556701797886677395135676480397908645939038763741875417438689722210047697064980363540048138710940689390114920231902955288216865600509652512802366922006120468997224373329589112568778847763968239284200639893458717413062684670777006852908005306160428234679354837234771432979930188116018464018676796744940726588250418133480490632102733 / 50060230569558135212431628928682526259691134039460815810331716074629761771557983390553818374167023440260324632212760613697929558751778013854201042351643901275191155815322032647169449125057132011174703395922737443048896632527613416545276681598247097983334656149637794735001607176471416597954362144309433769755744215523467898829493072622084478202646418184630056606675288227247150356732873355000701668655288707824182302925356048201426039442593915862206757472935450273141443127305575402191617601306624) = Num (of_int 6537299799439327 * 2 powi (37 - 52))"
    by (rule to_double_normal [OF _ _ _ _ _ r]) simp_all
  then show ?thesis by (simp add: x)
qed

lemma sb_mul_33: "to_double (500 * (6537299799439327 / 32768)) = Num (399005114711873 / 4)"
proof -
  have x: "(500 * (6537299799439327 / 32768) :: rat) = 817162474929915875 / 8192" by (simp add: power_divide)
  have r: "round_even (817162474929915875 / 8192 / 2 powi (46 - 52)) = 6384081835389968"
    by (rule round_even_near) simp_all
  have "to_double (817162474929915875 / 8192) = Num (of_int 6384081835389968 * 2 powi (46 - 52))"
    by (rule to_double_normal [OF _ _ _ _ _ r]) simp_all
  then show ?thesis by (simp add: x)
qed

lemma sb_price_33: "price 500 (22 / 10) 33 = Num 99751278677968"
proof -
  have p: "js_pow (Num (2476979795053773 / 1125899906842624)) 33 = Num (6537299799439327 / 32768)"
    unfolding js_pow.simps by (rule sb_pow_33)
  have m: "js_mul (Num 500) (Num (6537299799439327 / 32768)) = Num (399005114711873 / 4)"
    unfolding js_mul.simps by (rule sb_mul_33)
  have "\<lfloor>399005114711873 / 4 :: rat\<rfloor> = 99751278677968" by (rule floor_unique) (simp_all add: power_divide)
  then have f: "js_floor (Num (399005114711873 / 4)) = Num 99751278677968" by simp
  show ?thesis by (simp only: price_def double_500 double_22_10 p m f)
qed

lemma sb_exact_33: "\<lfloor>500 * (22 / 10 :: rat) ^ 33\<rfloor> = 99751278677967"
  by (rule floor_unique) (simp_all add: power_divide)

lemma sb_price_all:
  assumes "L \<le> 10"
  shows "price 500 (22 / 10) L = Num (of_int \<lfloor>500 * (22 / 10 :: rat) ^ L\<rfloor>)"
proof -
  consider "L = 0" | "L = 1" | "L = 2" | "L = 3" | "L = 4" | "L = 5" | "L = 6" | "L = 7" | "L = 8" | "L = 9" | "L = 10"
    using assms by atomize_elim arith
  then show ?thesis
  proof cases
  case 1
  then show ?thesis by (simp only: sb_price_0 sb_exact_0 of_int_numeral)
next
  case 2
  then show ?thesis by (simp only: sb_price_1 sb_exact_1 of_int_numeral)
next
  case 3
  then show ?thesis by (simp only: sb_price_2 sb_exact_2 of_int_numeral)
next
  case 4
  then show ?thesis by (simp only: sb_price_3 sb_exact_3 of_int_numeral)
next
  case 5
  then show ?thesis by (simp only: sb_price_4 sb_exact_4 of_int_numeral)
next
  case 6
  then show ?thesis by (simp only: sb_price_5 sb_exact_5 of_int_numeral)
next
  case 7
  then show ?thesis by (simp only: sb_price_6 sb_exact_6 of_int_numeral)
next
  case 8
  then show ?thesis by (simp only: sb_price_7 sb_exact_7 of_int_numeral)
next
  case 9
  then show ?thesis by (simp only: sb_price_8 sb_exact_8 of_int_numeral)
next
  case 10
  then show ?thesis by (simp only: sb_price_9 sb_exact_9 of_int_numeral)
next
  case 11
  then show ?thesis by (simp only: sb_price_10 sb_exact_10 of_int_numeral)
  qed
qed

lemma floor_geometric_strict:
  fixes b m :: rat
  assumes m: "1 < m" and g: "1 \<le> b * (m - 1)" and l: "L < L'"
  shows "\<lfloor>b * m ^ L\<rfloor> < \<lfloor>b * m ^ L'\<rfloor>"
proof -
  have b: "0 < b"
  proof (rule ccontr)
    assume "\<not> 0 < b"
    then have "b * (m - 1) \<le> 0" using m by (simp add: mult_le_0_iff)
    then show False using g by simp
  qed
  have p: "1 \<le> m ^ L" using m by simp
  have "b * (m - 1) * 1 \<le> b * (m - 1) * m ^ L"
    using p g by (intro mult_left_mono) simp_all
  then have "b * m ^ L + 1 \<le> b * m ^ L + b * (m - 1) * m ^ L" using g by simp
  also have "\<dots> = b * m ^ Suc L" by (simp add: algebra_simps)
  also have "\<dots> \<le> b * m ^ L'"
    using b m l by (simp add: power_increasing Suc_leI del: power_Suc)
  finally have "\<lfloor>b * m ^ L + 1\<rfloor> \<le> \<lfloor>b * m ^ L'\<rfloor>" by (rule floor_mono)
  then show ?thesis by simp
qed

lemma params_cases:
  assumes "upgrade_params upgradeId = Some (b, m, mx)"
  shows "(b, m, mx) \<in> {(25, 1, 1), (40, 2, 20), (200, 25 / 10, 5), (75, 15 / 10, 5),
                        (150, 1, 1), (100, 1, 1), (50, 1, 1), (500, 22 / 10, 10)}"
  using assms
  by (auto simp add: upgrade_params_def UPGRADES_def AUTO_PAINTER_CONFIG_def split: if_splits)

lemma getUpgradeCost_price:
  "upgrade_params upgradeId = Some (b, m, mx) \<Longrightarrow> getUpgradeCost upgradeId L = price b m L"
  by (auto simp add: upgrade_params_def getUpgradeCost_def split: if_splits)

lemma params_growth:
  "upgrade_params upgradeId = Some (b, m, mx) \<Longrightarrow> 1 < m \<Longrightarrow> 1 \<le> b * (m - 1)"
  using params_cases [of upgradeId b m mx] by auto

lemma price_within:
  assumes "upgrade_params upgradeId = Some (b, m, mx)" and "L \<le> mx"
  shows "price b m L = Num (of_int \<lfloor>b * m ^ L\<rfloor>)"
proof -
  from params_cases [OF assms(1)]
  consider "b = 25 \<and> m = 1 \<and> mx = 1" | "b = 40 \<and> m = 2 \<and> mx = 20"
    | "b = 200 \<and> m = 25 / 10 \<and> mx = 5" | "b = 75 \<and> m = 15 / 10 \<and> mx = 5"
    | "b = 150 \<and> m = 1 \<and> mx = 1" | "b = 100 \<and> m = 1 \<and> mx = 1"
    | "b = 50 \<and> m = 1 \<and> mx = 1" | "b = 500 \<and> m = 22 / 10 \<and> mx = 10"
    by auto
  then show ?thesis
  proof cases
    case 1
    then show ?thesis using assms(2) by (intro price_exact [of b 25 m 2 L mx]) simp_all
  next
    case 2
    then show ?thesis using assms(2) by (intro price_exact [of b 40 m 4 L mx]) simp_all
  next
    case 3
    then show ?thesis using assms(2) by (intro price_exact [of b 200 m 5 L mx]) simp_all
  next
    case 4
    then show ?thesis using assms(2) by (intro price_exact [of b 75 m 3 L mx]) simp_all
  next
    case 5
    then show ?thesis using assms(2) by (intro price_exact [of b 150 m 2 L mx]) simp_all
  next
    case 6
    then show ?thesis using assms(2) by (intro price_exact [of b 100 m 2 L mx]) simp_all
  next
    case 7
    then show ?thesis using assms(2) by (intro price_exact [of b 50 m 2 L mx]) simp_all
  next
    case 8
    then have e: "b = 500" "m = 22 / 10" "mx = 10" by simp_all
    show ?thesis unfolding e(1,2) by (rule sb_price_all) (use assms(2) e(3) in simp)
  qed
qed

lemma price_multiplier_one:
  assumes "upgrade_params upgradeId = Some (b, 1, mx)"
  shows "price b 1 L = Num b"
proof -
  from params_cases [OF assms]
  consider "b = 25" | "b = 150" | "b = 100" | "b = 50"
    by auto
  then show ?thesis
  proof cases
    case 1
    then show ?thesis by (intro price_constant [of b 25]) simp_all
  next
    case 2
    then show ?thesis by (intro price_constant [of b 150]) simp_all
  next
    case 3
    then show ?thesis by (intro price_constant [of b 100]) simp_all
  next
    case 4
    then show ?thesis by (intro price_constant [of b 50]) simp_all
  qed
qed

text \<open>
  C8 (as amended). For every upgrade (a catalogue entry, or an auto-painter with the
  shared configuration), with base cost \<open>b\<close>, multiplier \<open>m\<close> and level cap \<open>maxLevel\<close>: at
  every owned level \<open>L\<close> up to \<open>maxLevel\<close> the cost is exactly \<open>floor (b * m ^ L)\<close>; over
  these levels it is strictly increasing in \<open>L\<close> when \<open>m > 1\<close>; and when \<open>m = 1\<close> it is
  the same at every level, with no bound.
\<close>

theorem getUpgradeCost_within_maxLevel:
  assumes "upgrade_params upgradeId = Some (b, m, mx)"
  shows "(L \<le> mx \<longrightarrow> getUpgradeCost upgradeId L = Num (of_int \<lfloor>b * m ^ L\<rfloor>))
    \<and> (1 < m \<longrightarrow> (\<forall>L'. L < L' \<and> L' \<le> mx \<longrightarrow>
          js_less (getUpgradeCost upgradeId L) (getUpgradeCost upgradeId L')))
    \<and> (m = 1 \<longrightarrow> getUpgradeCost upgradeId L = getUpgradeCost upgradeId 0)"
proof (intro conjI impI allI)
  assume "L \<le> mx"
  then show "getUpgradeCost upgradeId L = Num (of_int \<lfloor>b * m ^ L\<rfloor>)"
    by (simp only: getUpgradeCost_price [OF assms] price_within [OF assms])
next
  fix L'
  assume m: "1 < m" and l: "L < L' \<and> L' \<le> mx"
  then have "L \<le> mx" and "L' \<le> mx" by simp_all
  then have "getUpgradeCost upgradeId L = Num (of_int \<lfloor>b * m ^ L\<rfloor>)"
    and "getUpgradeCost upgradeId L' = Num (of_int \<lfloor>b * m ^ L'\<rfloor>)"
    by (simp_all only: getUpgradeCost_price [OF assms] price_within [OF assms])
  moreover have "\<lfloor>b * m ^ L\<rfloor> < \<lfloor>b * m ^ L'\<rfloor>"
    using m params_growth [OF assms m] l by (intro floor_geometric_strict) simp_all
  ultimately show "js_less (getUpgradeCost upgradeId L) (getUpgradeCost upgradeId L')"
    by simp
next
  assume "m = 1"
  then show "getUpgradeCost upgradeId L = getUpgradeCost upgradeId 0"
    using assms price_multiplier_one [of upgradeId b mx]
    by (simp add: getUpgradeCost_price [OF assms])
qed

theorem getUpgradeCost_within_maxLevel_witness:
  "upgrade_params ''speed_boost'' = Some (500, 22 / 10, 10)
   \<and> getUpgradeCost ''speed_boost'' 3 = Num 5324
   \<and> js_less (getUpgradeCost ''speed_boost'' 3) (getUpgradeCost ''speed_boost'' 4)
   \<and> upgrade_params ''hold_to_paint'' = Some (25, 1, 1)
   \<and> getUpgradeCost ''hold_to_paint'' 7 = getUpgradeCost ''hold_to_paint'' 0
   \<and> getUpgradeCost ''hold_to_paint'' 0 = Num 25
   \<and> upgrade_params ''auto_painter_red'' = Some (75, 15 / 10, 5)
   \<and> getUpgradeCost ''auto_painter_red'' 2 = Num 168"
proof -
  have a: "upgrade_params ''speed_boost'' = Some (500, 22 / 10, 10)"
    by (simp add: upgrade_params_def isAutoPainterUpgrade_def UPGRADES_def)
  have b: "upgrade_params ''hold_to_paint'' = Some (25, 1, 1)"
    by (simp add: upgrade_params_def isAutoPainterUpgrade_def UPGRADES_def)
  have c: "upgrade_params ''auto_painter_red'' = Some (75, 15 / 10, 5)"
    by (simp add: upgrade_params_def isAutoPainterUpgrade_def AUTO_PAINTER_CONFIG_def)
  have f: "\<lfloor>500 * (22 / 10 :: rat) ^ 3\<rfloor> = 5324" "\<lfloor>75 * (15 / 10 :: rat) ^ 2\<rfloor> = 168"
    "\<lfloor>25 * (1 :: rat) ^ 0\<rfloor> = 25"
    by (rule floor_unique; simp add: power_divide)+
  have m: "(1::rat) < 22 / 10" by simp
  have l: "(3::nat) < 4 \<and> (4::nat) \<le> 10" by simp
  have s: "js_less (getUpgradeCost ''speed_boost'' 3) (getUpgradeCost ''speed_boost'' 4)"
    by (rule getUpgradeCost_within_maxLevel
          [OF a, of 3, THEN conjunct2, THEN conjunct1, THEN mp, OF m, THEN spec, of 4,
           THEN mp, OF l])
  from getUpgradeCost_within_maxLevel [OF a, of 3] getUpgradeCost_within_maxLevel [OF b, of 7]
    getUpgradeCost_within_maxLevel [OF b, of 0] getUpgradeCost_within_maxLevel [OF c, of 2]
    a b c f s
  show ?thesis by simp
qed

text \<open>
  C8 as stated fails beyond the level caps, which \<open>getUpgradeCost\<close> and
  \<open>GameState.purchaseUpgrade\<close> do not enforce: at level 33 the cost of \<open>speed_boost\<close> is
  99751278677968 in doubles, one more than \<open>floor (500 * 2.2 ^ 33)\<close>; and at levels 1100
  and 1101 the cost of \<open>money_boost\<close> is \<open>Infinity\<close> both times, so it does not increase.
\<close>

theorem getUpgradeCost_beyond_maxLevel_counterexample:
  "getUpgradeCost ''speed_boost'' 33 = Num 99751278677968
   \<and> \<lfloor>500 * (22 / 10 :: rat) ^ 33\<rfloor> = 99751278677967
   \<and> getUpgradeCost ''money_boost'' 1100 = PosInfinity
   \<and> getUpgradeCost ''money_boost'' 1101 = PosInfinity
   \<and> \<not> js_less (getUpgradeCost ''money_boost'' 1100) (getUpgradeCost ''money_boost'' 1101)"
proof -
  have a: "upgrade_params ''speed_boost'' = Some (500, 22 / 10, 10)"
    by (simp add: upgrade_params_def isAutoPainterUpgrade_def UPGRADES_def)
  have b: "upgrade_params ''money_boost'' = Some (40, 2, 20)"
    by (simp add: upgrade_params_def isAutoPainterUpgrade_def UPGRADES_def)
  have o: "price 40 2 1100 = PosInfinity" "price 40 2 1101 = PosInfinity"
    by (rule price_overflow [of 40 40]; simp)+
  show ?thesis
    by (simp only: getUpgradeCost_price [OF a] getUpgradeCost_price [OF b] sb_price_33
        sb_exact_33 o js_less.simps simp_thms)
qed

subsection \<open>Generating a contract\<close>

lemma getRank_level: "l \<in> {1..10} \<Longrightarrow> level (getRank l) = l"
proof -
  assume "l \<in> {1..10}"
  then have "l = 1 \<or> l = 2 \<or> l = 3 \<or> l = 4 \<or> l = 5 \<or> l = 6 \<or> l = 7 \<or> l = 8 \<or> l = 9 \<or> l = 10"
    by simp presburger
  then show ?thesis by (auto simp add: getRank_def RANKS_def)
qed

lemma getRank_unknown: "l \<notin> {1..10} \<Longrightarrow> getRank l = RANKS ! 0"
  by (auto simp add: getRank_def RANKS_def)

lemma generateContract_level:
  "fst (generateContract (Some l) gen now cs s) = Some c \<Longrightarrow> rankLevel c = level (getRank l)"
  by (auto simp add: generateContract_def Let_def split: if_splits)

lemma generateContract_reward: "fst (generateContract req gen now cs s) = Some c \<Longrightarrow> 1 \<le> reward c"
  by (auto simp add: generateContract_def Let_def split: if_splits)

lemma generateContract_inaccessible:
  "\<not> canAccessRank (getRank l) (completedContracts s) (gridSize_of s) (unlockedColors s)
     \<Longrightarrow> generateContract (Some l) gen now cs s = (None, cs)"
  by (simp add: generateContract_def Let_def)

text \<open>
  C9 on the code: a requested level that is in the catalogue behaves as the claim says
  (\<open>generateContract_inaccessible\<close>, \<open>generateContract_level\<close>, \<open>getRank_level\<close>). A level
  that is not in the catalogue does not: \<open>getRank\<close> falls back to the first rank, so on a
  new game \<open>generateContract(11)\<close> returns a contract, of rank level 1.
\<close>

theorem generateContract_unknown_rank:
  "fst (generateContract (Some 11) gen now cs GameState) =
     Some \<lparr>cid = contractIdCounter cs + 1, rankLevel = 1, rankName = ''Novice'',
           pattern = gen (RANKS ! 0) 4,
           reward = max \<lfloor>5 * (of_int (countPatternCells (gen (RANKS ! 0) 4)) / 4 :: rat)\<rfloor> 1,
           cellCount = countPatternCells (gen (RANKS ! 0) 4), createdAt = now\<rparr>"
proof -
  have r: "getRank 11 = RANKS ! 0" by (rule getRank_unknown) simp
  have f: "level (RANKS ! 0) = 1" "name (RANKS ! 0) = ''Novice''"
    "patternComplexity (RANKS ! 0) = ''simple''" "rewardMultiplier (RANKS ! 0) = 1"
    "contractsRequired (RANKS ! 0) = 0" "minGridSize (RANKS ! 0) = 4"
    "requiredColors (RANKS ! 0) = [''black'', ''white'']"
    by (simp_all add: RANKS_def)
  show ?thesis
    by (simp add: generateContract_def Let_def r f canAccessRank_def gridSize_of_def
        GameState_def Grid_def getBaseReward_def getMoneyBoostMultiplier_def num_or_def)
qed

subsection \<open>The auto-painter\<close>

lemma find_append_cases:
  "find P (xs @ ys) = (case find P xs of None \<Rightarrow> find P ys | Some v \<Rightarrow> Some v)"
  by (induction xs) auto

lemma paint_row_find:
  "paint_row c p s y xs =
     map_option (\<lambda>(x, y). snd (on_grid (setCell x y (Some c) True) s))
       (find (needs_color c p (grid s)) (map (\<lambda>x. (x, y)) xs))"
  by (induction xs) (simp_all add: needs_color_def Let_def)

lemma paint_rows_find:
  "paint_rows c p s ys =
     map_option (\<lambda>(x, y). snd (on_grid (setCell x y (Some c) True) s))
       (find (needs_color c p (grid s))
          (concat (map (\<lambda>y. map (\<lambda>x. (x, y)) [0..width (grid s) - 1]) ys)))"
  by (induction ys) (simp_all add: paint_row_find find_append_cases split: option.splits)

lemma row_major_valid: "(x, y) \<in> set (row_major (width g) (height g)) \<Longrightarrow> isValid g x y"
  by (auto simp add: row_major_def isValid_def)

lemma setCell_paints:
  assumes "isValid g x y" and "getCell g x y \<noteq> Some c"
  shows "setCell x y (Some c) True g =
           (True, painted g x y c, [CellChanged x y (Some c) (Some (getCell g x y))])"
  using assms by (simp add: setCell_def getCell_def painted_def store_def Let_def)

lemma cell_painted_fields:
  "grid (cell_painted s x y c) = painted (grid s) x y c"
  "activeContract (cell_painted s x y c) = activeContract s"
  "completedContracts (cell_painted s x y c) = completedContracts s"
  "money (cell_painted s x y c) = money s"
  by (simp_all add: cell_painted_def emit_def)

lemma grid_listener_cellChanged:
  "grid_listener (CellChanged x y (Some c) (Some (getCell (grid s) x y)))
     (s\<lparr>grid := painted (grid s) x y c\<rparr>) = checkContractCompletion (cell_painted s x y c)"
  by (simp add: grid_listener_def cell_painted_def)

text \<open>
  C10. With an active contract, one paint attempt for a colour looks for the first
  coordinate in row-major order (rows from 0 upward, and within a row columns from 0
  upward) where the pattern asks for this colour and \<open>getCell\<close> does not report it. If
  there is none, the attempt returns false and the state is unchanged. Otherwise it makes
  exactly one call of \<open>setCell\<close>, at that coordinate, which succeeds: it stores the colour
  under that one key, records the edit in the history and emits \<open>cellChanged\<close>; the
  listener of GameState then runs as for a manual edit: it counts and forwards the edit and
  runs the completion check on the painted grid. So the attempt returns true, and the
  contract is completed by it (reward paid, counter raised, grid cleared) exactly when the
  painted grid matches the pattern; otherwise the painted cell stays and the contract
  stays active.
\<close>

theorem paintNextCell_first_needed:
  assumes "activeContract s = Some ct"
  shows "case first_needed c (pattern ct) (grid s) of
           None \<Rightarrow> paintNextCell c s = (False, s)
         | Some (x, y) \<Rightarrow>
             setCell x y (Some c) True (grid s) =
               (True, painted (grid s) x y c,
                [CellChanged x y (Some c) (Some (getCell (grid s) x y))])
           \<and> paintNextCell c s =
               (True, grid_listener (CellChanged x y (Some c) (Some (getCell (grid s) x y)))
                        (s\<lparr>grid := painted (grid s) x y c\<rparr>))
           \<and> paintNextCell c s = (True, checkContractCompletion (cell_painted s x y c))
           \<and> (activeContract (snd (paintNextCell c s)) = None)
               = grid_matches (painted (grid s) x y c) (pattern ct)
           \<and> (grid_matches (painted (grid s) x y c) (pattern ct) \<longrightarrow>
                 completedContracts (snd (paintNextCell c s)) = completedContracts s + 1
               \<and> cells (grid (snd (paintNextCell c s))) = []
               \<and> (0 \<le> reward ct \<longrightarrow> money (snd (paintNextCell c s)) = money s + reward ct))
           \<and> (\<not> grid_matches (painted (grid s) x y c) (pattern ct) \<longrightarrow>
                 snd (paintNextCell c s) = cell_painted s x y c)"
proof (cases "first_needed c (pattern ct) (grid s)")
  case None
  then show ?thesis
    using assms by (simp add: paintNextCell_def paint_rows_find first_needed_def row_major_def)
next
  case (Some xy)
  obtain x y where xy: "xy = (x, y)" by (cases xy)
  have f: "find (needs_color c (pattern ct) (grid s)) (row_major (width (grid s)) (height (grid s)))
      = Some (x, y)"
    using Some by (simp add: first_needed_def xy)
  then have "(x, y) \<in> set (row_major (width (grid s)) (height (grid s)))"
    and n: "needs_color c (pattern ct) (grid s) (x, y)"
    by (auto simp add: find_Some_iff)
  then have v: "isValid (grid s) x y" by (simp add: row_major_valid)
  have sc: "setCell x y (Some c) True (grid s) =
      (True, painted (grid s) x y c, [CellChanged x y (Some c) (Some (getCell (grid s) x y))])"
    using v n by (intro setCell_paints) (simp_all add: needs_color_def)
  have "paintNextCell c s = (True, snd (on_grid (setCell x y (Some c) True) s))"
    using assms f by (simp add: paintNextCell_def paint_rows_find row_major_def)
  then have p: "paintNextCell c s =
      (True, grid_listener (CellChanged x y (Some c) (Some (getCell (grid s) x y)))
               (s\<lparr>grid := painted (grid s) x y c\<rparr>))"
    using sc by (simp add: on_grid_def)
  then have q: "paintNextCell c s = (True, checkContractCompletion (cell_painted s x y c))"
    by (simp only: grid_listener_cellChanged)
  have a: "activeContract (cell_painted s x y c) = Some ct"
    using assms by (simp add: cell_painted_fields)
  note cc = checkContractCompletion_cases [OF a] and ce = completeActiveContract_effect [OF a]
  have r: "(activeContract (snd (paintNextCell c s)) = None)
             = grid_matches (painted (grid s) x y c) (pattern ct)"
    and t: "grid_matches (painted (grid s) x y c) (pattern ct) \<longrightarrow>
              completedContracts (snd (paintNextCell c s)) = completedContracts s + 1
            \<and> cells (grid (snd (paintNextCell c s))) = []
            \<and> (0 \<le> reward ct \<longrightarrow> money (snd (paintNextCell c s)) = money s + reward ct)"
    and u: "\<not> grid_matches (painted (grid s) x y c) (pattern ct) \<longrightarrow>
              snd (paintNextCell c s) = cell_painted s x y c"
    using a by (auto simp add: q cc ce cell_painted_fields)
  show ?thesis
    unfolding Some xy using sc p q r t u by simp
qed

lemma first_needed_demo:
  "first_needed ''black'' (pattern demo_contract) (grid started_state) = Some (0, 0)"
  "first_needed ''red'' (pattern demo_contract) (grid started_state) = None"
  by (simp_all add: first_needed_def row_major_def needs_color_def started_state_eq GameState_def
      Grid_def demo_contract_def pattern_at_def getCell_def isValid_def key_def or_null_def
      upto.simps)

lemma painted_demo:
  "painted (Grid 4 4) 0 0 ''black'' =
      \<lparr>width = 4, height = 4, cells = [((0, 0), ''black'')],
       history = [\<lparr>hx = 0, hy = 0, oldColor = None, newColor = Some ''black''\<rparr>]\<rparr>"
  "painted (painted (Grid 4 4) 0 0 ''black'') 1 0 ''white'' = two_cells"
  by (simp_all add: painted_def Grid_def key_def getCell_def isValid_def or_null_def
      push_history_def maxHistory_def two_cells_eq)

lemma first_needed_half:
  "first_needed ''white'' (pattern demo_contract) (grid half_state) = Some (1, 0)"
  by (simp add: first_needed_def row_major_def needs_color_def half_state_def painted_demo
      demo_contract_def pattern_at_def getCell_def isValid_def key_def or_null_def upto.simps)

lemma grid_matches_demo:
  "\<not> grid_matches (painted (Grid 4 4) 0 0 ''black'') (pattern demo_contract)"
  "grid_matches two_cells (pattern demo_contract)"
  by (simp_all add: painted_demo(1) two_cells_eq grid_matches_def demo_contract_def getCell_def
      isValid_def key_def or_null_def pattern_at_def upto.simps)

theorem paintNextCell_first_needed_witness:
  "activeContract started_state = Some demo_contract
   \<and> first_needed ''black'' (pattern demo_contract) (grid started_state) = Some (0, 0)
   \<and> fst (paintNextCell ''black'' started_state)
   \<and> cells (grid (snd (paintNextCell ''black'' started_state))) = [((0, 0), ''black'')]
   \<and> length (history (grid (snd (paintNextCell ''black'' started_state)))) = 1
   \<and> activeContract (snd (paintNextCell ''black'' started_state)) = Some demo_contract
   \<and> first_needed ''red'' (pattern demo_contract) (grid started_state) = None
   \<and> paintNextCell ''red'' started_state = (False, started_state)
   \<and> activeContract half_state = Some demo_contract
   \<and> first_needed ''white'' (pattern demo_contract) (grid half_state) = Some (1, 0)
   \<and> grid_matches (painted (grid half_state) 1 0 ''white'') (pattern demo_contract)
   \<and> fst (paintNextCell ''white'' half_state)
   \<and> activeContract (snd (paintNextCell ''white'' half_state)) = None
   \<and> completedContracts (snd (paintNextCell ''white'' half_state)) = 1
   \<and> money (snd (paintNextCell ''white'' half_state)) = 7
   \<and> cells (grid (snd (paintNextCell ''white'' half_state))) = []"
proof -
  have a: "activeContract started_state = Some demo_contract"
    by (simp add: started_state_eq)
  have b: "activeContract half_state = Some demo_contract"
    by (simp add: half_state_def started_state_eq)
  have g: "grid started_state = Grid 4 4" "grid half_state = painted (Grid 4 4) 0 0 ''black''"
    by (simp_all add: half_state_def started_state_eq GameState_def)
  have v: "reward demo_contract = 7" "completedContracts half_state = 0" "money half_state = 0"
    by (simp_all add: demo_contract_def half_state_def started_state_eq GameState_def)
  note black = paintNextCell_first_needed
    [OF a, of "''black''", unfolded first_needed_demo(1) option.case prod.case]
  note red = paintNextCell_first_needed
    [OF a, of "''red''", unfolded first_needed_demo(2) option.case]
  note white = paintNextCell_first_needed
    [OF b, of "''white''", unfolded first_needed_half option.case prod.case]
  have b1: "fst (paintNextCell ''black'' started_state)"
    using black [THEN conjunct2, THEN conjunct2, THEN conjunct1] by simp
  have "\<not> grid_matches (painted (grid started_state) 0 0 ''black'') (pattern demo_contract)"
    by (simp add: g grid_matches_demo)
  then have b2: "snd (paintNextCell ''black'' started_state) = cell_painted started_state 0 0 ''black''"
    using black [THEN conjunct2, THEN conjunct2, THEN conjunct2, THEN conjunct2, THEN conjunct2]
    by simp
  have w1: "fst (paintNextCell ''white'' half_state)"
    using white [THEN conjunct2, THEN conjunct2, THEN conjunct1] by simp
  have m: "grid_matches (painted (grid half_state) 1 0 ''white'') (pattern demo_contract)"
    by (simp add: g painted_demo(2) grid_matches_demo(2))
  then have w2: "activeContract (snd (paintNextCell ''white'' half_state)) = None"
    using white [THEN conjunct2, THEN conjunct2, THEN conjunct2, THEN conjunct1] by simp
  have w3: "completedContracts (snd (paintNextCell ''white'' half_state)) = 1
      \<and> cells (grid (snd (paintNextCell ''white'' half_state))) = []
      \<and> money (snd (paintNextCell ''white'' half_state)) = 7"
    using white [THEN conjunct2, THEN conjunct2, THEN conjunct2, THEN conjunct2, THEN conjunct1]
      m v by simp
  show ?thesis
    using a b b1 w1 w2 w3 m red first_needed_demo first_needed_half
    by (simp add: b2 cell_painted_fields g painted_demo(1))
qed

end
